theory Spec2Isabelle
  imports Main "HOL-Library.AList"
begin

section \<open>Python values, exceptions and effects\<close>

text \<open>
  The library under verification (\<^verbatim>\<open>al_decorators/__init__.py\<close>) wraps Python
  functions.  Everything a Python callable does beyond returning a value is explicit
  here: a callable takes the world \<open>'w\<close> (the mutable state user code can reach) and
  returns its outcome (\<open>Inl\<close> an exception, \<open>Inr\<close> a value) with the new world.
\<close>

datatype exn =
    TypeError string
  | ValueError string
  | AttributeError string
  | Exception string



text \<open>
  Python objects.  A dictionary is an association list with distinct string keys in
  insertion order (\<open>map_of\<close> reads, \<open>AList.update\<close> is \<^verbatim>\<open>d[k] = v\<close>: an existing
  key keeps its place, a new key goes last; \<open>AList.delete\<close> removes a key).
  \<open>VCallable n body\<close> is a callable object named \<open>n\<close>; \<open>body\<close> is the effect of
  calling it with no arguments.
\<close>

datatype 'w val =
    VNone
  | VBool bool
  | VInt int
  | VStr string
  | VTuple "'w val list"
  | VDict "(string \<times> 'w val) list"
  | VCallable string "'w \<Rightarrow> (exn + 'w val) \<times> 'w"

type_synonym 'w dict = "(string \<times> 'w val) list"

definition has_key :: "('k \<times> 'v) list \<Rightarrow> 'k \<Rightarrow> bool" where
  "has_key d k = (map_of d k \<noteq> None)"

text \<open>\<^verbatim>\<open>repr\<close> of a parameter name, as the \<^verbatim>\<open>{arg!r}\<close> of the library's messages.\<close>

definition repr :: "string \<Rightarrow> string" where
  "repr s = [CHR 0x27] @ s @ [CHR 0x27]"

text \<open>
  \<open>call0 v w\<close> is the Python expression \<^verbatim>\<open>v()\<close>: the body of a callable, and a
  \<^verbatim>\<open>TypeError\<close> for an object that is not callable.
\<close>

fun call0 :: "'w val \<Rightarrow> 'w \<Rightarrow> (exn + 'w val) \<times> 'w" where
  "call0 (VCallable n body) w = body w"
| "call0 v w = (Inl (TypeError ''object is not callable''), w)"

fun callable :: "'w val \<Rightarrow> bool" where
  "callable (VCallable n body) = True"
| "callable v = False"

text \<open>Iterating a value (\<^verbatim>\<open>list(v)\<close>): tuples, strings and dictionary keys.\<close>

fun py_iter :: "'w val \<Rightarrow> exn + 'w val list" where
  "py_iter (VTuple vs) = Inr vs"
| "py_iter (VStr s) = Inr (map (\<lambda>c. VStr [c]) s)"
| "py_iter (VDict d) = Inr (map (\<lambda>kv. VStr (fst kv)) d)"
| "py_iter v = Inl (TypeError ''object is not iterable'')"

fun hashable :: "'w val \<Rightarrow> bool" where
  "hashable (VTuple vs) = list_all hashable vs"
| "hashable (VDict d) = False"
| "hashable v = True"

text \<open>
  \<^verbatim>\<open>kwargs.update(arg)\<close>.  The state is the dictionary built so far and a flag
  that a key which is not a string was stored (such a dictionary cannot be passed as
  \<^verbatim>\<open>**kwargs\<close>).  A dictionary argument is merged key by key; any other iterable
  must yield two-element sequences.
\<close>

fun update_from_pairs :: "'w val list \<Rightarrow> 'w dict \<times> bool \<Rightarrow> exn + 'w dict \<times> bool" where
  "update_from_pairs [] st = Inr st"
| "update_from_pairs (elem # rest) (d, nonstr) =
     (case py_iter elem of
        Inl e \<Rightarrow> Inl (TypeError ''cannot convert dictionary update sequence element to a sequence'')
      | Inr [k, v] \<Rightarrow>
          if \<not> hashable k then Inl (TypeError ''unhashable type'')
          else (case k of
                  VStr s \<Rightarrow> update_from_pairs rest (AList.update s v d, nonstr)
                | _ \<Rightarrow> update_from_pairs rest (d, True))
      | Inr _ \<Rightarrow> Inl (ValueError ''dictionary update sequence element has the wrong length; 2 is required''))"

fun dict_update :: "'w dict \<times> bool \<Rightarrow> 'w val \<Rightarrow> exn + 'w dict \<times> bool" where
  "dict_update (d, nonstr) (VDict e) = Inr (fold (\<lambda>kv acc. AList.update (fst kv) (snd kv) acc) e d, nonstr)"
| "dict_update st v =
     (case py_iter v of
        Inl e \<Rightarrow> Inl e
      | Inr elems \<Rightarrow> update_from_pairs elems st)"

section \<open>Signatures and bound arguments (the \<^verbatim>\<open>inspect\<close> module)\<close>

text \<open>
  The repository calls \<^verbatim>\<open>inspect.signature\<close>, \<^verbatim>\<open>Signature.bind\<close>,
  \<^verbatim>\<open>BoundArguments.apply_defaults\<close>, \<^verbatim>\<open>.args\<close> and \<^verbatim>\<open>.kwargs\<close> of the
  Python standard library.  They are embedded statement by statement from
  \<^verbatim>\<open>inspect.py\<close> (CPython 3.11).
\<close>

datatype kind =
    POSITIONAL_ONLY
  | POSITIONAL_OR_KEYWORD
  | VAR_POSITIONAL
  | KEYWORD_ONLY
  | VAR_KEYWORD

fun kind_rank :: "kind \<Rightarrow> nat" where
  "kind_rank POSITIONAL_ONLY = 0"
| "kind_rank POSITIONAL_OR_KEYWORD = 1"
| "kind_rank VAR_POSITIONAL = 2"
| "kind_rank KEYWORD_ONLY = 3"
| "kind_rank VAR_KEYWORD = 4"

record 'w parameter =
  pname :: string
  pkind :: kind
  pdefault :: "'w val option"

type_synonym 'w signature = "'w parameter list"

record 'w BoundArguments =
  ba_signature :: "'w signature"
  arguments :: "'w dict"

text \<open>
  The first loop of \<^verbatim>\<open>Signature._bind\<close>: positional arguments against the
  parameters in order.  The result is the arguments bound so far and the parameters
  still to be treated by the keyword loop (\<^verbatim>\<open>chain(parameters_ex, parameters)\<close>).
\<close>

fun bind_positional ::
  "'w parameter list \<Rightarrow> 'w val list \<Rightarrow> 'w dict \<Rightarrow> 'w dict \<Rightarrow> exn + 'w dict \<times> 'w parameter list" where
  "bind_positional [] [] kwargs argmap = Inr (argmap, [])"
| "bind_positional (param # parameters) [] kwargs argmap =
     (if pkind param = VAR_POSITIONAL then Inr (argmap, parameters)
      else if has_key kwargs (pname param) then
        (if pkind param = POSITIONAL_ONLY
         then Inl (TypeError (repr (pname param) @ '' parameter is positional only, but was passed as a keyword''))
         else Inr (argmap, param # parameters))
      else if pkind param = VAR_KEYWORD \<or> pdefault param \<noteq> None then Inr (argmap, param # parameters)
      else Inl (TypeError (''missing a required argument: '' @ repr (pname param))))"
| "bind_positional [] (arg_val # arg_vals) kwargs argmap =
     Inl (TypeError ''too many positional arguments'')"
| "bind_positional (param # parameters) (arg_val # arg_vals) kwargs argmap =
     (if pkind param = VAR_KEYWORD \<or> pkind param = KEYWORD_ONLY
      then Inl (TypeError ''too many positional arguments'')
      else if pkind param = VAR_POSITIONAL
      then Inr (AList.update (pname param) (VTuple (arg_val # arg_vals)) argmap, parameters)
      else if has_key kwargs (pname param) \<and> pkind param \<noteq> POSITIONAL_ONLY
      then Inl (TypeError (''multiple values for argument '' @ repr (pname param)))
      else bind_positional parameters arg_vals kwargs (AList.update (pname param) arg_val argmap))"

text \<open>
  The second loop of \<^verbatim>\<open>Signature._bind\<close>: the remaining parameters take their
  values from \<^verbatim>\<open>kwargs\<close> by name (\<^verbatim>\<open>kwargs.pop\<close>).
\<close>

fun bind_keywords ::
  "'w parameter list \<Rightarrow> 'w dict \<Rightarrow> 'w dict \<Rightarrow> 'w parameter option
     \<Rightarrow> exn + 'w dict \<times> 'w dict \<times> 'w parameter option" where
  "bind_keywords [] kwargs argmap kwargs_param = Inr (argmap, kwargs, kwargs_param)"
| "bind_keywords (param # parameters) kwargs argmap kwargs_param =
     (if pkind param = VAR_KEYWORD then bind_keywords parameters kwargs argmap (Some param)
      else if pkind param = VAR_POSITIONAL then bind_keywords parameters kwargs argmap kwargs_param
      else (case map_of kwargs (pname param) of
              None \<Rightarrow>
                if pdefault param = None
                then Inl (TypeError (''missing a required argument: '' @ repr (pname param)))
                else bind_keywords parameters kwargs argmap kwargs_param
            | Some arg_val \<Rightarrow>
                if pkind param = POSITIONAL_ONLY
                then Inl (TypeError (repr (pname param) @ '' parameter is positional only, but was passed as a keyword''))
                else bind_keywords parameters (AList.delete (pname param) kwargs)
                       (AList.update (pname param) arg_val argmap) kwargs_param))"

definition bind :: "'w signature \<Rightarrow> 'w val list \<Rightarrow> 'w dict \<Rightarrow> exn + 'w BoundArguments" where
  "bind sig args kwargs =
     (case bind_positional sig args kwargs [] of
        Inl e \<Rightarrow> Inl e
      | Inr (arguments1, rest) \<Rightarrow>
          (case bind_keywords rest kwargs arguments1 None of
             Inl e \<Rightarrow> Inl e
           | Inr (arguments2, kwargs', kwargs_param) \<Rightarrow>
               (case kwargs' of
                  [] \<Rightarrow> Inr \<lparr>ba_signature = sig, arguments = arguments2\<rparr>
                | kv # _ \<Rightarrow>
                    (case kwargs_param of
                       Some p \<Rightarrow>
                         Inr \<lparr>ba_signature = sig,
                              arguments = AList.update (pname p) (VDict kwargs') arguments2\<rparr>
                     | None \<Rightarrow>
                         Inl (TypeError (''got an unexpected keyword argument '' @ repr (fst kv)))))))"

text \<open>\<^verbatim>\<open>BoundArguments.apply_defaults\<close>: rebuilds the mapping in signature order.\<close>

fun new_arguments :: "'w parameter list \<Rightarrow> 'w dict \<Rightarrow> 'w dict" where
  "new_arguments [] argmap = []"
| "new_arguments (param # parameters) argmap =
     (case map_of argmap (pname param) of
        Some v \<Rightarrow> (pname param, v) # new_arguments parameters argmap
      | None \<Rightarrow>
          (case pdefault param of
             Some v \<Rightarrow> (pname param, v) # new_arguments parameters argmap
           | None \<Rightarrow>
               if pkind param = VAR_POSITIONAL
               then (pname param, VTuple []) # new_arguments parameters argmap
               else if pkind param = VAR_KEYWORD
               then (pname param, VDict []) # new_arguments parameters argmap
               else new_arguments parameters argmap))"

text \<open>\<^verbatim>\<open>dict(new_arguments)\<close>: a later pair with the same key overwrites in place.\<close>

definition dict_of_pairs :: "'w dict \<Rightarrow> 'w dict" where
  "dict_of_pairs kvs = fold (\<lambda>kv acc. AList.update (fst kv) (snd kv) acc) kvs []"

definition apply_defaults :: "'w BoundArguments \<Rightarrow> 'w BoundArguments" where
  "apply_defaults ba = ba\<lparr>arguments := dict_of_pairs (new_arguments (ba_signature ba) (arguments ba))\<rparr>"

text \<open>\<^verbatim>\<open>BoundArguments.args\<close>.\<close>

fun args_loop :: "'w parameter list \<Rightarrow> 'w dict \<Rightarrow> 'w val list \<Rightarrow> exn + 'w val list" where
  "args_loop [] argmap args = Inr args"
| "args_loop (param # parameters) argmap args =
     (if pkind param = VAR_KEYWORD \<or> pkind param = KEYWORD_ONLY then Inr args
      else (case map_of argmap (pname param) of
              None \<Rightarrow> Inr args
            | Some arg \<Rightarrow>
                if pkind param = VAR_POSITIONAL
                then (case py_iter arg of
                        Inl e \<Rightarrow> Inl e
                      | Inr vs \<Rightarrow> args_loop parameters argmap (args @ vs))
                else args_loop parameters argmap (args @ [arg])))"

definition ba_args :: "'w BoundArguments \<Rightarrow> exn + 'w val list" where
  "ba_args ba = args_loop (ba_signature ba) (arguments ba) []"

text \<open>\<^verbatim>\<open>BoundArguments.kwargs\<close>.\<close>

fun kwargs_loop ::
  "'w parameter list \<Rightarrow> 'w dict \<Rightarrow> bool \<Rightarrow> 'w dict \<times> bool \<Rightarrow> exn + 'w dict \<times> bool" where
  "kwargs_loop [] argmap kwargs_started kwargs = Inr kwargs"
| "kwargs_loop (param # parameters) argmap kwargs_started kwargs =
     (if \<not> kwargs_started \<and> \<not> (pkind param = VAR_KEYWORD \<or> pkind param = KEYWORD_ONLY)
      then kwargs_loop parameters argmap (\<not> has_key argmap (pname param)) kwargs
      else (case map_of argmap (pname param) of
              None \<Rightarrow> kwargs_loop parameters argmap True kwargs
            | Some arg \<Rightarrow>
                if pkind param = VAR_KEYWORD
                then (case dict_update kwargs arg of
                        Inl e \<Rightarrow> Inl e
                      | Inr kwargs' \<Rightarrow> kwargs_loop parameters argmap True kwargs')
                else kwargs_loop parameters argmap True
                       (AList.update (pname param) arg (fst kwargs), snd kwargs)))"

definition ba_kwargs :: "'w BoundArguments \<Rightarrow> exn + 'w dict \<times> bool" where
  "ba_kwargs ba = kwargs_loop (ba_signature ba) (arguments ba) False ([], False)"

text \<open>
  A signature as \<^verbatim>\<open>inspect.signature\<close> returns it for a Python function: kinds in
  order, distinct names, at most one \<^verbatim>\<open>*args\<close> and one \<^verbatim>\<open>**kwargs\<close> parameter,
  neither with a default, and no positional parameter without a default after one
  with a default.
\<close>

fun no_required_after_default :: "'w parameter list \<Rightarrow> bool \<Rightarrow> bool" where
  "no_required_after_default [] seen_default = True"
| "no_required_after_default (p # ps) seen_default =
     (if pkind p = POSITIONAL_ONLY \<or> pkind p = POSITIONAL_OR_KEYWORD
      then (if pdefault p = None then \<not> seen_default \<and> no_required_after_default ps seen_default
            else no_required_after_default ps True)
      else no_required_after_default ps seen_default)"

definition wf_signature :: "'w signature \<Rightarrow> bool" where
  "wf_signature sig \<longleftrightarrow>
     sorted (map (\<lambda>p. kind_rank (pkind p)) sig) \<and>
     distinct (map pname sig) \<and>
     length (filter (\<lambda>p. pkind p = VAR_POSITIONAL) sig) \<le> 1 \<and>
     length (filter (\<lambda>p. pkind p = VAR_KEYWORD) sig) \<le> 1 \<and>
     list_all (\<lambda>p. (pkind p = VAR_POSITIONAL \<or> pkind p = VAR_KEYWORD) \<longrightarrow> pdefault p = None) sig \<and>
     no_required_after_default sig False"


section \<open>Functions, calls and the record of invocations\<close>

text \<open>
  A Python function object: its \<^verbatim>\<open>__name__\<close>, the signature that
  \<^verbatim>\<open>inspect.signature\<close> reports for it, and its body, which runs on the local
  variables (one entry per parameter, in signature order) and the world.
\<close>

record 'w func =
  fname :: string
  fsig :: "'w signature"
  fbody :: "'w dict \<Rightarrow> 'w \<Rightarrow> (exn + 'w val) \<times> 'w"

text \<open>
  The call \<^verbatim>\<open>func(*args, **kwargs)\<close> of a Python function is the work of the
  interpreter (CPython 3.11, \<^verbatim>\<open>initialize_locals\<close> in \<^verbatim>\<open>ceval.c\<close>), not of
  \<^verbatim>\<open>inspect\<close>: it is embedded on its own, with its error messages.  First the
  helpers of the messages: a number in decimal, \<^verbatim>\<open>sep.join(names)\<close> and the plural
  \<^verbatim>\<open>s\<close>.
\<close>

fun show_nat :: "nat \<Rightarrow> string" where
  "show_nat n =
     (if n < 10 then [''0123456789'' ! n]
      else show_nat (n div 10) @ [''0123456789'' ! (n mod 10)])"

declare show_nat.simps [simp del]

fun join :: "string \<Rightarrow> string list \<Rightarrow> string" where
  "join sep [] = []"
| "join sep [x] = x"
| "join sep (x # y # ys) = x @ sep @ join sep (y # ys)"

definition plural :: "bool \<Rightarrow> string" where
  "plural many = (if many then ''s'' else [])"

text \<open>
  The code object's view of the parameters: the positional ones (\<^verbatim>\<open>co_argcount\<close> of
  them, the first \<^verbatim>\<open>co_posonlyargcount\<close> positional-only), the keyword-only ones,
  those a keyword can name, and the flags \<^verbatim>\<open>CO_VARARGS\<close> and
  \<^verbatim>\<open>CO_VARKEYWORDS\<close>.
\<close>

definition positional :: "'w signature \<Rightarrow> 'w parameter list" where
  "positional sig = filter (\<lambda>p. pkind p = POSITIONAL_ONLY \<or> pkind p = POSITIONAL_OR_KEYWORD) sig"

definition positional_only :: "'w signature \<Rightarrow> 'w parameter list" where
  "positional_only sig = filter (\<lambda>p. pkind p = POSITIONAL_ONLY) sig"

definition keyword_only :: "'w signature \<Rightarrow> 'w parameter list" where
  "keyword_only sig = filter (\<lambda>p. pkind p = KEYWORD_ONLY) sig"

definition by_keyword :: "'w signature \<Rightarrow> 'w parameter list" where
  "by_keyword sig = filter (\<lambda>p. pkind p = POSITIONAL_OR_KEYWORD \<or> pkind p = KEYWORD_ONLY) sig"

definition has_varargs :: "'w signature \<Rightarrow> bool" where
  "has_varargs sig = list_ex (\<lambda>p. pkind p = VAR_POSITIONAL) sig"

definition has_varkeywords :: "'w signature \<Rightarrow> bool" where
  "has_varkeywords sig = list_ex (\<lambda>p. pkind p = VAR_KEYWORD) sig"

text \<open>
  The error for keywords that name positional-only parameters, raised when there is no
  \<^verbatim>\<open>**kwargs\<close> to take them: it lists all such keywords of the call.
\<close>

definition positional_only_passed_as_keyword :: "string \<Rightarrow> 'w signature \<Rightarrow> 'w dict \<Rightarrow> exn option" where
  "positional_only_passed_as_keyword qualname sig kwnames =
     (case filter (has_key kwnames) (map pname (positional_only sig)) of
        [] \<Rightarrow> None
      | names \<Rightarrow>
          Some (TypeError (qualname @ ''() got some positional-only arguments passed as keyword arguments: ''
                  @ repr (join '', '' names))))"

text \<open>
  The loop over the keyword arguments.  A keyword that names a parameter which can
  be passed by keyword fills its slot, which must be empty; any other keyword goes
  to the \<^verbatim>\<open>**kwargs\<close> dictionary, or is an error when there is none.
\<close>

fun keyword_loop ::
  "string \<Rightarrow> 'w signature \<Rightarrow> 'w dict \<Rightarrow> 'w dict \<Rightarrow> 'w dict \<Rightarrow> 'w dict \<Rightarrow> exn + 'w dict \<times> 'w dict" where
  "keyword_loop qualname sig kwnames [] localsplus kwdict = Inr (localsplus, kwdict)"
| "keyword_loop qualname sig kwnames ((keyword, v) # rest) localsplus kwdict =
     (if keyword \<in> set (map pname (by_keyword sig))
      then (if has_key localsplus keyword
            then Inl (TypeError (qualname @ ''() got multiple values for argument '' @ repr keyword))
            else keyword_loop qualname sig kwnames rest (AList.update keyword v localsplus) kwdict)
      else if \<not> has_varkeywords sig
      then (case positional_only_passed_as_keyword qualname sig kwnames of
              Some e \<Rightarrow> Inl e
            | None \<Rightarrow> Inl (TypeError (qualname @ ''() got an unexpected keyword argument '' @ repr keyword)))
      else keyword_loop qualname sig kwnames rest localsplus (AList.update keyword v kwdict))"

text \<open>
  The messages for too many positional arguments and for missing arguments.
\<close>

definition too_many_positional :: "string \<Rightarrow> 'w signature \<Rightarrow> nat \<Rightarrow> 'w dict \<Rightarrow> exn" where
  "too_many_positional qualname sig given localsplus =
     (let co_argcount = length (positional sig);
          kwonly_given = length (filter (\<lambda>p. has_key localsplus (pname p)) (keyword_only sig));
          defcount = length (filter (\<lambda>p. pdefault p \<noteq> None) (positional sig));
          takes = (if 0 < defcount
                   then ''from '' @ show_nat (co_argcount - defcount) @ '' to '' @ show_nat co_argcount
                   else show_nat co_argcount);
          kwonly_sig = (if 0 < kwonly_given
                        then '' positional argument'' @ plural (given \<noteq> 1) @ '' (and ''
                             @ show_nat kwonly_given @ '' keyword-only argument''
                             @ plural (kwonly_given \<noteq> 1) @ '')''
                        else [])
      in TypeError (qualname @ ''() takes '' @ takes @ '' positional argument''
           @ plural (0 < defcount \<or> co_argcount \<noteq> 1) @ '' but '' @ show_nat given @ kwonly_sig @ '' ''
           @ (if given = 1 \<and> kwonly_given = 0 then ''was'' else ''were'') @ '' given''))"

definition format_missing :: "string \<Rightarrow> string \<Rightarrow> string list \<Rightarrow> exn" where
  "format_missing qualname kind_str names =
     (let name_str =
        (case names of
           [n] \<Rightarrow> n
         | [n1, n2] \<Rightarrow> n1 @ '' and '' @ n2
         | _ \<Rightarrow> join '', '' (butlast (butlast names)) @ '', '' @ last (butlast names)
                  @ '', and '' @ last names)
      in TypeError (qualname @ ''() missing '' @ show_nat (length names) @ '' required '' @ kind_str
           @ '' argument'' @ plural (length names \<noteq> 1) @ '': '' @ name_str))"

definition missing_arguments :: "'w parameter list \<Rightarrow> 'w dict \<Rightarrow> string list" where
  "missing_arguments ps localsplus =
     map (\<lambda>p. repr (pname p)) (filter (\<lambda>p. pdefault p = None \<and> \<not> has_key localsplus (pname p)) ps)"

text \<open>
  The value of the local variable of a parameter when the body starts: the excess
  positional arguments for \<^verbatim>\<open>*args\<close>, the dictionary for \<^verbatim>\<open>**kwargs\<close>, else the
  filled slot or the declared default.
\<close>

definition local_value :: "'w signature \<Rightarrow> 'w val list \<Rightarrow> 'w dict \<Rightarrow> 'w dict \<Rightarrow> 'w parameter \<Rightarrow> 'w val" where
  "local_value sig args localsplus kwdict p =
     (if pkind p = VAR_POSITIONAL then VTuple (drop (length (positional sig)) args)
      else if pkind p = VAR_KEYWORD then VDict kwdict
      else (case map_of localsplus (pname p) of
              Some v \<Rightarrow> v
            | None \<Rightarrow> (case pdefault p of Some d \<Rightarrow> d | None \<Rightarrow> VNone)))"

text \<open>
  The binding of a call: positional arguments fill the first slots, then the keywords,
  then the checks in the interpreter's order (too many positional arguments, missing
  positional arguments, missing keyword-only arguments).  The result is the local
  variables, one entry per parameter in signature order.  A parameter is required
  when it has no default (for a signature of a function, the positional parameters
  with defaults are the last ones).
\<close>

definition initialize_locals :: "string \<Rightarrow> 'w signature \<Rightarrow> 'w val list \<Rightarrow> 'w dict \<Rightarrow> exn + 'w dict" where
  "initialize_locals qualname sig args kwargs =
     (case keyword_loop qualname sig kwargs kwargs (zip (map pname (positional sig)) args) [] of
        Inl e \<Rightarrow> Inl e
      | Inr (localsplus, kwdict) \<Rightarrow>
          if length (positional sig) < length args \<and> \<not> has_varargs sig
          then Inl (too_many_positional qualname sig (length args) localsplus)
          else if missing_arguments (positional sig) localsplus \<noteq> []
          then Inl (format_missing qualname ''positional'' (missing_arguments (positional sig) localsplus))
          else if missing_arguments (keyword_only sig) localsplus \<noteq> []
          then Inl (format_missing qualname ''keyword-only'' (missing_arguments (keyword_only sig) localsplus))
          else Inr (map (\<lambda>p. (pname p, local_value sig args localsplus kwdict p)) sig))"

text \<open>
  The call \<^verbatim>\<open>func(*args, **kwargs)\<close>: the interpreter binds the arguments and runs
  the body on the local variables; when the binding fails the body does not run.
  \<open>snd kwargs\<close> says that a key of the dictionary is not a string.  The name in
  the messages is \<^verbatim>\<open>__qualname__\<close>, which is \<^verbatim>\<open>__name__\<close> for a function defined
  at the top of a module.
\<close>

definition py_call :: "'w func \<Rightarrow> 'w val list \<Rightarrow> 'w dict \<times> bool \<Rightarrow> 'w \<Rightarrow> (exn + 'w val) \<times> 'w" where
  "py_call func args kwargs w =
     (if snd kwargs then (Inl (TypeError ''keywords must be strings''), w)
      else (case initialize_locals (fname func) (fsig func) args (fst kwargs) of
              Inl e \<Rightarrow> (Inl e, w)
            | Inr localsplus \<Rightarrow> fbody func localsplus w))"

text \<open>
  What a callback receives: the \<^verbatim>\<open>BoundArguments\<close> of the current call, or the
  \<^verbatim>\<open>SignatureDecorator\<close> instance.  The instance is passed as the record of its
  attributes other than the callbacks themselves.
\<close>

record 'w SignatureDecorator_view =
  v_apply_defaults :: bool
  v_apply_self :: bool
  v_func :: "'w func option"
  v_signature :: "'w signature option"
  v_boundarguments :: "'w BoundArguments option"

datatype 'w cb_arg =
    ArgBoundArguments "'w BoundArguments"
  | ArgSelf "'w SignatureDecorator_view"

text \<open>The \<^verbatim>\<open>BoundArguments\<close> a callback reaches through the object it received.\<close>

fun arg_boundarguments :: "'w cb_arg \<Rightarrow> 'w BoundArguments option" where
  "arg_boundarguments (ArgBoundArguments ba) = Some ba"
| "arg_boundarguments (ArgSelf self) = v_boundarguments self"

text \<open>
  The invocations the code performs are recorded in order, each with the invocations
  made inside it: a callback with its position in the callback tuple and the object it
  received, the target with the positional and keyword arguments of the call
  expression, a provider \<^verbatim>\<open>v()\<close> with the parameter it is configured for, and the
  fallback function of a property.
\<close>

datatype 'w invocation =
    CallbackCalled nat "'w cb_arg"
  | FuncCalled string "'w val list" "'w dict \<times> bool"
  | ProviderCalled string
  | FallbackCalled string

datatype 'w call = Call "'w invocation" "'w call list"

fun invocation_of :: "'w call \<Rightarrow> 'w invocation" where
  "invocation_of (Call c sub) = c"

fun subcalls :: "'w call \<Rightarrow> 'w call list" where
  "subcalls (Call c sub) = sub"

fun is_CallbackCalled :: "'w invocation \<Rightarrow> bool" where
  "is_CallbackCalled (CallbackCalled i a) = True"
| "is_CallbackCalled c = False"

fun is_FuncCalled :: "'w invocation \<Rightarrow> bool" where
  "is_FuncCalled (FuncCalled n a k) = True"
| "is_FuncCalled c = False"

fun provider_name :: "'w invocation \<Rightarrow> string option" where
  "provider_name (ProviderCalled k) = Some k"
| "provider_name c = None"

text \<open>All invocations of a record, outermost first, and the number of times the provider
  configured for the parameter \<open>k\<close> was invoked.\<close>

fun invocations :: "'w call \<Rightarrow> 'w invocation list" where
  "invocations (Call c sub) = c # concat (map invocations sub)"

definition provider_calls :: "'w call list \<Rightarrow> string \<Rightarrow> nat" where
  "provider_calls tr k =
     length (filter (\<lambda>c. provider_name c = Some k) (concat (map invocations tr)))"

fun callback_index :: "'w invocation \<Rightarrow> nat option" where
  "callback_index (CallbackCalled i a) = Some i"
| "callback_index c = None"

text \<open>
  A callback mutates the \<^verbatim>\<open>BoundArguments\<close> object it reaches (directly or as
  \<^verbatim>\<open>self.boundarguments\<close>) and the world, or raises; its return value is ignored
  by the callers.  It yields the object after its writes, the new world and the
  invocations it made.
\<close>

type_synonym 'w callback =
  "'w cb_arg \<Rightarrow> 'w \<Rightarrow> (exn + 'w BoundArguments) \<times> 'w \<times> 'w call list"

text \<open>
  The loop \<^verbatim>\<open>for callback in callbacks: callback(...)\<close> of both wrappers.
  \<open>mk ba\<close> is the object handed to the callback while the bound arguments are
  \<open>ba\<close>; \<open>i\<close> counts the position.  The result is the exception that ended the
  loop, if any, with the bound arguments, the world and the record at that point.
\<close>

fun run_callbacks ::
  "('w BoundArguments \<Rightarrow> 'w cb_arg) \<Rightarrow> 'w callback list \<Rightarrow> nat \<Rightarrow> 'w BoundArguments \<Rightarrow> 'w
     \<Rightarrow> exn option \<times> 'w BoundArguments \<times> 'w \<times> 'w call list" where
  "run_callbacks mk [] i ba w = (None, ba, w, [])"
| "run_callbacks mk (callback # callbacks) i ba w =
     (case callback (mk ba) w of
        (Inl e, w', sub) \<Rightarrow> (Some e, ba, w', [Call (CallbackCalled i (mk ba)) sub])
      | (Inr ba', w', sub) \<Rightarrow>
          (case run_callbacks mk callbacks (Suc i) ba' w' of
             (r, ba'', w'', tr) \<Rightarrow> (r, ba'', w'', Call (CallbackCalled i (mk ba)) sub # tr)))"

text \<open>
  \<open>next_sees mk xs rest ba1 w1 tr\<close>: if a callback follows the one at position
  \<open>length xs\<close> (that is, \<open>rest\<close> is not empty), the record \<open>tr\<close> shows it
  invoked, at the next position, on the bound arguments \<open>ba1\<close> in the world \<open>w1\<close>.
\<close>

definition next_sees ::
  "('w BoundArguments \<Rightarrow> 'w cb_arg) \<Rightarrow> 'w callback list \<Rightarrow> 'w callback list \<Rightarrow> 'w BoundArguments \<Rightarrow> 'w
     \<Rightarrow> 'w call list \<Rightarrow> bool" where
  "next_sees mk xs rest ba1 w1 tr \<longleftrightarrow>
     (case rest of
        [] \<Rightarrow> True
      | c1 # ys \<Rightarrow>
          length xs + 1 < length tr \<and>
          tr ! (length xs + 1) =
            Call (CallbackCalled (length xs + 1) (mk ba1)) (snd (snd (c1 (mk ba1) w1))))"

text \<open>The final statement of both wrappers: \<^verbatim>\<open>return func(*ba.args, **ba.kwargs)\<close>.\<close>

definition call_bound ::
  "'w func \<Rightarrow> 'w BoundArguments \<Rightarrow> 'w \<Rightarrow> (exn + 'w val) \<times> 'w \<times> 'w call list" where
  "call_bound func ba w =
     (case ba_args ba of
        Inl e \<Rightarrow> (Inl e, w, [])
      | Inr args \<Rightarrow>
          (case ba_kwargs ba of
             Inl e \<Rightarrow> (Inl e, w, [])
           | Inr kwargs \<Rightarrow>
               (case py_call func args kwargs w of
                  (r, w') \<Rightarrow> (r, w', [Call (FuncCalled (fname func) args kwargs) []]))))"

section \<open>\<^verbatim>\<open>signature_decorator_factory\<close>\<close>

text \<open>
  \<open>signature_decorator_factory callbacks flag\<close> is the decorator, applied to
  \<open>func\<close> it is the wrapper \<^verbatim>\<open>inner\<close>, applied to the actual arguments it is one
  call of the decorated function.
\<close>

definition signature_decorator_factory ::
  "'w callback list \<Rightarrow> bool \<Rightarrow> 'w func \<Rightarrow> 'w val list \<Rightarrow> 'w dict \<Rightarrow> 'w
     \<Rightarrow> (exn + 'w val) \<times> 'w \<times> 'w call list" where
  "signature_decorator_factory callbacks apply_defaults_flag func args kw w =
     (let sig = fsig func in
      case bind sig args kw of
        Inl e \<Rightarrow> (Inl e, w, [])
      | Inr ba0 \<Rightarrow>
          (let ba = (if apply_defaults_flag then apply_defaults ba0 else ba0) in
           case run_callbacks ArgBoundArguments callbacks 0 ba w of
             (Some e, ba', w', tr) \<Rightarrow> (Inl e, w', tr)
           | (None, ba', w', tr) \<Rightarrow>
               (case call_bound func ba' w' of (r, w'', tr') \<Rightarrow> (r, w'', tr @ tr'))))"

section \<open>\<^verbatim>\<open>SignatureDecorator\<close>\<close>

text \<open>
  The instance.  \<open>sd_callbacks\<close>, \<open>sd_apply_defaults\<close>, \<open>sd_apply_self\<close>,
  \<open>sd_func\<close>, \<open>sd_signature\<close> and \<open>sd_isset\<close> are the attributes
  \<^verbatim>\<open>_callbacks\<close>, \<^verbatim>\<open>_apply_defaults\<close>, \<^verbatim>\<open>_apply_self\<close>, \<^verbatim>\<open>_func\<close>,
  \<^verbatim>\<open>_signature\<close> and \<^verbatim>\<open>_isset\<close>; \<open>boundarguments\<close> is the attribute the
  wrapper assigns on every call (\<open>None\<close> while it does not exist).  The attribute
  \<^verbatim>\<open>_boundarguments\<close> is set to \<^verbatim>\<open>None\<close> by \<^verbatim>\<open>__init__\<close> and never read or
  written again.
\<close>

record 'w SignatureDecorator =
  sd_callbacks :: "'w callback list"
  sd_apply_defaults :: bool
  sd_apply_self :: bool
  sd_func :: "'w func option"
  sd_signature :: "'w signature option"
  sd_isset :: bool
  boundarguments :: "'w BoundArguments option"

definition view :: "'w SignatureDecorator \<Rightarrow> 'w SignatureDecorator_view" where
  "view self =
     \<lparr>v_apply_defaults = sd_apply_defaults self, v_apply_self = sd_apply_self self,
      v_func = sd_func self, v_signature = sd_signature self,
      v_boundarguments = boundarguments self\<rparr>"

definition SignatureDecorator_init :: "'w callback list \<Rightarrow> bool \<Rightarrow> bool \<Rightarrow> 'w SignatureDecorator" where
  "SignatureDecorator_init callbacks apply_defaults_flag apply_self =
     \<lparr>sd_callbacks = callbacks, sd_apply_defaults = apply_defaults_flag,
      sd_apply_self = apply_self, sd_func = None, sd_signature = None, sd_isset = False,
      boundarguments = None\<rparr>"

text \<open>
  \<^verbatim>\<open>__call__(self, func)\<close>: the decoration.  It returns the wrapper
  \<^verbatim>\<open>inner\<close>, a closure over \<^verbatim>\<open>self\<close> and \<^verbatim>\<open>func\<close>; here it yields the
  instance after the two assignments, and the wrapper is \<open>SignatureDecorator_inner\<close>
  applied to \<open>func\<close> and to the state of the instance at the time of a call.
\<close>

definition SignatureDecorator_call :: "'w SignatureDecorator \<Rightarrow> 'w func \<Rightarrow> exn + 'w SignatureDecorator" where
  "SignatureDecorator_call self func =
     (if sd_isset self
      then Inl (AttributeError ''SignatureDecorator can only be initialized for a single function (see SignatureDecorator.factory)'')
      else Inr (self\<lparr>sd_func := Some func, sd_signature := Some (fsig func)\<rparr>))"

text \<open>The object passed to a callback: \<^verbatim>\<open>self\<close> if \<^verbatim>\<open>self.apply_self\<close>, else \<^verbatim>\<open>ba\<close>.\<close>

definition callback_arg :: "'w SignatureDecorator \<Rightarrow> 'w BoundArguments \<Rightarrow> 'w cb_arg" where
  "callback_arg self ba =
     (if sd_apply_self self then ArgSelf (view (self\<lparr>boundarguments := Some ba\<rparr>))
      else ArgBoundArguments ba)"

definition SignatureDecorator_inner ::
  "'w func \<Rightarrow> 'w SignatureDecorator \<Rightarrow> 'w val list \<Rightarrow> 'w dict \<Rightarrow> 'w
     \<Rightarrow> ((exn + 'w val) \<times> 'w \<times> 'w call list) \<times> 'w SignatureDecorator" where
  "SignatureDecorator_inner func self args kw w =
     (case sd_signature self of
        None \<Rightarrow> ((Inl (AttributeError ''NoneType object has no attribute bind''), w, []), self)
      | Some sig \<Rightarrow>
          (case bind sig args kw of
             Inl e \<Rightarrow> ((Inl e, w, []), self)
           | Inr ba0 \<Rightarrow>
               (let ba = (if sd_apply_defaults self then apply_defaults ba0 else ba0) in
                case run_callbacks (callback_arg self) (sd_callbacks self) 0 ba w of
                  (Some e, ba', w', tr) \<Rightarrow> ((Inl e, w', tr), self\<lparr>boundarguments := Some ba'\<rparr>)
                | (None, ba', w', tr) \<Rightarrow>
                    (case call_bound func ba' w' of
                       (r, w'', tr') \<Rightarrow> ((r, w'', tr @ tr'), self\<lparr>boundarguments := Some ba'\<rparr>)))))"

text \<open>
  \<^verbatim>\<open>SignatureDecorator.factory\<close>: the decorator \<^verbatim>\<open>inner(func)\<close> creates a new
  instance, applies it and runs \<^verbatim>\<open>ondecoration(inst)\<close> if one is given.
\<close>

definition SignatureDecorator_factory ::
  "'w callback list \<Rightarrow> bool \<Rightarrow> bool \<Rightarrow> ('w SignatureDecorator_view \<Rightarrow> 'w \<Rightarrow> exn option \<times> 'w) option
     \<Rightarrow> 'w func \<Rightarrow> 'w \<Rightarrow> (exn + 'w SignatureDecorator) \<times> 'w" where
  "SignatureDecorator_factory callbacks apply_defaults_flag apply_self ondecoration func w =
     (let inst = SignatureDecorator_init callbacks apply_defaults_flag apply_self in
      case SignatureDecorator_call inst func of
        Inl e \<Rightarrow> (Inl e, w)
      | Inr deco \<Rightarrow>
          (case ondecoration of
             None \<Rightarrow> (Inr deco, w)
           | Some hook \<Rightarrow>
               (case hook (view deco) w of
                  (Some e, w') \<Rightarrow> (Inl e, w')
                | (None, w') \<Rightarrow> (Inr deco, w'))))"

section \<open>\<^verbatim>\<open>dynamic_defaults\<close>\<close>

text \<open>
  \<open>kw\<close> is the dictionary \<^verbatim>\<open>**kw\<close> of configured values, in the order given.
  \<^verbatim>\<open>ondecoration\<close> checks every configured name against the parameters of the
  decorated function.
\<close>

fun ondecoration_loop :: "string list \<Rightarrow> 'w parameter list \<Rightarrow> 'w SignatureDecorator_view \<Rightarrow> exn option" where
  "ondecoration_loop [] params sigdecor = None"
| "ondecoration_loop (k # ks) params sigdecor =
     (if k \<notin> set (map pname params)
      then (case v_func sigdecor of
              None \<Rightarrow> Some (AttributeError ''NoneType object has no attribute __name__'')
            | Some func \<Rightarrow>
                Some (TypeError (''dynamic_defaults got an unexpected keyword argument for the function ''
                                   @ fname func @ '': '' @ k)))
      else ondecoration_loop ks params sigdecor)"

definition dynamic_defaults_ondecoration ::
  "'w dict \<Rightarrow> 'w SignatureDecorator_view \<Rightarrow> 'w \<Rightarrow> exn option \<times> 'w" where
  "dynamic_defaults_ondecoration kw sigdecor w =
     (case v_signature sigdecor of
        None \<Rightarrow> (Some (AttributeError ''NoneType object has no attribute parameters''), w)
      | Some params \<Rightarrow> (ondecoration_loop (map fst kw) params sigdecor, w))"

text \<open>
  The loop of \<^verbatim>\<open>update\<close>:
  \<^verbatim>\<open>try: ba.arguments[k] = v()\<close> / \<^verbatim>\<open>except: ba.arguments[k] = v\<close>
  for every configured name that is not bound.
\<close>

fun update_loop :: "'w dict \<Rightarrow> 'w dict \<Rightarrow> 'w \<Rightarrow> 'w dict \<times> 'w \<times> 'w call list" where
  "update_loop [] argmap w = (argmap, w, [])"
| "update_loop ((k, v) # items) argmap w =
     (if \<not> has_key argmap k
      then (case call0 v w of
              (Inr r, w') \<Rightarrow>
                (case update_loop items (AList.update k r argmap) w' of
                   (argmap', w'', tr) \<Rightarrow> (argmap', w'', Call (ProviderCalled k) [] # tr))
            | (Inl e, w') \<Rightarrow>
                (case update_loop items (AList.update k v argmap) w' of
                   (argmap', w'', tr) \<Rightarrow> (argmap', w'', Call (ProviderCalled k) [] # tr)))
      else update_loop items argmap w)"

text \<open>The value the \<^verbatim>\<open>try\<close>/\<^verbatim>\<open>except\<close> statement stores, given the outcome of \<^verbatim>\<open>v()\<close>.\<close>

definition stored_value :: "'w val \<Rightarrow> (exn + 'w val) \<Rightarrow> 'w val" where
  "stored_value v res = (case res of Inr r \<Rightarrow> r | Inl e \<Rightarrow> v)"

definition dynamic_defaults_update :: "'w dict \<Rightarrow> 'w callback" where
  "dynamic_defaults_update kw sigdecor w =
     (case sigdecor of
        ArgBoundArguments ba \<Rightarrow>
          (Inl (AttributeError ''BoundArguments object has no attribute boundarguments''), w, [])
      | ArgSelf self \<Rightarrow>
          (case v_boundarguments self of
             None \<Rightarrow>
               (Inl (AttributeError ''SignatureDecorator object has no attribute boundarguments''), w, [])
           | Some ba \<Rightarrow>
               (case update_loop kw (arguments ba) w of
                  (argmap, w', tr) \<Rightarrow> (Inr (apply_defaults (ba\<lparr>arguments := argmap\<rparr>)), w', tr))))"

text \<open>
  \<open>dynamic_defaults kw\<close> is the decorator; applied to a function (and the world at
  decoration time) it yields the instance the wrapper is bound to, or the exception
  raised by the decoration.  A call of the decorated function is
  \<open>SignatureDecorator_inner\<close> on that instance.
\<close>

definition dynamic_defaults :: "'w dict \<Rightarrow> 'w func \<Rightarrow> 'w \<Rightarrow> (exn + 'w SignatureDecorator) \<times> 'w" where
  "dynamic_defaults kw =
     SignatureDecorator_factory [dynamic_defaults_update kw] False True
       (Some (dynamic_defaults_ondecoration kw))"

section \<open>\<^verbatim>\<open>defaultproperty\<close>\<close>

text \<open>
  An object, as \<^verbatim>\<open>getattr\<close>, \<^verbatim>\<open>setattr\<close> and \<^verbatim>\<open>delattr\<close> see it: the name of
  its class, the attributes defined on the class, and the attributes of the instance
  (its \<^verbatim>\<open>__dict__\<close>).  \<^verbatim>\<open>getattr\<close> reads the instance and then the class;
  \<^verbatim>\<open>setattr\<close> and \<^verbatim>\<open>delattr\<close> act on the instance only.  The class attributes
  are plain values (no descriptor under the name read), and the class does not
  redefine attribute access.
\<close>

type_synonym 'w attrs = "string \<rightharpoonup> 'w val"

record 'w object =
  cls_name :: string
  cls_attrs :: "'w attrs"
  inst_attrs :: "'w attrs"










section \<open>Notions used to state and prove the properties of a call\<close>

text \<open>
  The names of the parameters of a list that are neither \<^verbatim>\<open>*args\<close> nor \<^verbatim>\<open>**kwargs\<close>.
\<close>

definition nonvar_names :: "'w parameter list \<Rightarrow> string set" where
  "nonvar_names ps = pname ` {p \<in> set ps. pkind p \<noteq> VAR_POSITIONAL \<and> pkind p \<noteq> VAR_KEYWORD}"

text \<open>
  The last step of \<^verbatim>\<open>Signature._bind\<close>, on the state left by the keyword loop: the
  left-over keywords go to the \<^verbatim>\<open>**kwargs\<close> parameter, or are an error.
\<close>

definition bind_finish ::
  "'w signature \<Rightarrow> 'w dict \<times> 'w dict \<times> 'w parameter option \<Rightarrow> exn + 'w BoundArguments" where
  "bind_finish sig st =
     (case st of (arguments2, kwargs', kwargs_param) \<Rightarrow>
        (case kwargs' of
           [] \<Rightarrow> Inr \<lparr>ba_signature = sig, arguments = arguments2\<rparr>
         | kv # _ \<Rightarrow>
             (case kwargs_param of
                Some p \<Rightarrow>
                  Inr \<lparr>ba_signature = sig,
                       arguments = AList.update (pname p) (VDict kwargs') arguments2\<rparr>
              | None \<Rightarrow>
                  Inl (TypeError (''got an unexpected keyword argument '' @ repr (fst kv))))))"

text \<open>
  \<^verbatim>\<open>Signature._bind\<close> started in the middle of the positional loop: \<open>ps\<close> are the
  parameters not yet visited and \<open>acc\<close> the arguments bound so far.  \<open>bind\<close> is
  \<open>bind_from\<close> on the whole parameter list and no argument bound.
\<close>

definition bind_from ::
  "'w signature \<Rightarrow> 'w parameter list \<Rightarrow> 'w val list \<Rightarrow> 'w dict \<Rightarrow> 'w dict \<Rightarrow> exn + 'w BoundArguments" where
  "bind_from sig ps args kwargs acc =
     (case bind_positional ps args kwargs acc of
        Inl e \<Rightarrow> Inl e
      | Inr (arguments1, rest) \<Rightarrow>
          (case bind_keywords rest kwargs arguments1 None of
             Inl e \<Rightarrow> Inl e
           | Inr st \<Rightarrow> bind_finish sig st))"




text \<open>
  The caller supplied the parameter \<open>p\<close>: a positional argument reaches its position, or
  (for a parameter that may be passed by keyword) a keyword has its name; for
  \<^verbatim>\<open>**kwargs\<close>, some keyword names no parameter that may be passed by keyword.
\<close>

definition supplied :: "'w signature \<Rightarrow> 'w val list \<Rightarrow> 'w dict \<Rightarrow> 'w parameter \<Rightarrow> bool" where
  "supplied sig args kw p \<longleftrightarrow>
     (case pkind p of
        POSITIONAL_ONLY \<Rightarrow> pname p \<in> set (map pname (take (length args) sig))
      | POSITIONAL_OR_KEYWORD \<Rightarrow>
          pname p \<in> set (map pname (take (length args) sig)) \<or> has_key kw (pname p)
      | VAR_POSITIONAL \<Rightarrow> pname p \<in> set (map pname (take (length args) sig))
      | KEYWORD_ONLY \<Rightarrow> has_key kw (pname p)
      | VAR_KEYWORD \<Rightarrow>
          (\<exists>k \<in> set (map fst kw).
             k \<notin> set (map pname (filter (\<lambda>q. pkind q = POSITIONAL_OR_KEYWORD \<or> pkind q = KEYWORD_ONLY) sig))))"


section \<open>Example programs\<close>

text \<open>
  The programs of the docstrings and of the test suite, used at the concrete inputs
  below.  The world of these examples is a counter that providers and callbacks
  increase when they run.
\<close>

definition name_param :: "nat parameter" where
  "name_param = \<lparr>pname = ''name'', pkind = POSITIONAL_OR_KEYWORD, pdefault = Some VNone\<rparr>"

definition sayHello :: "nat func" where
  "sayHello =
     \<lparr>fname = ''sayHello'', fsig = [name_param],
      fbody = (\<lambda>env w. (case map_of env ''name'' of
                            Some v \<Rightarrow> Inr v
                          | None \<Rightarrow> Inl (Exception ''unbound local variable''), w))\<rparr>"

definition default_username :: "nat val" where
  "default_username = VCallable ''default_username'' (\<lambda>w. (Inr (VStr ''World''), Suc w))"




text \<open>
  The test \<^verbatim>\<open>test_SignatureDecorator_basic\<close>: the world is \<^verbatim>\<open>ranFlag\<close>,
  \<^verbatim>\<open>callback_check\<close> sets it, \<^verbatim>\<open>callback_check_reverse\<close> asserts it and
  clears it, the decorated function is \<^verbatim>\<open>def test(): pass\<close>.
\<close>

definition test_func :: "bool func" where
  "test_func = \<lparr>fname = ''test'', fsig = [], fbody = (\<lambda>env w. (Inr VNone, w))\<rparr>"

definition callback_check :: "bool callback" where
  "callback_check arg ranFlag =
     (case arg_boundarguments arg of
        None \<Rightarrow> (Inl (AttributeError ''boundarguments''), ranFlag, [])
      | Some ba \<Rightarrow> (Inr ba, True, []))"

definition callback_check_reverse :: "bool callback" where
  "callback_check_reverse arg ranFlag =
     (case arg_boundarguments arg of
        None \<Rightarrow> (Inl (AttributeError ''boundarguments''), ranFlag, [])
      | Some ba \<Rightarrow>
          if ranFlag then (Inr ba, False, [])
          else (Inl (Exception ''AssertionError''), ranFlag, []))"

definition test_sig :: "bool SignatureDecorator" where
  "test_sig =
     (SignatureDecorator_init [callback_check, callback_check_reverse] False True)
       \<lparr>sd_func := Some test_func, sd_signature := Some (fsig test_func)\<rparr>"

text \<open>
  The docstring example of \<^verbatim>\<open>dynamic_defaults\<close>: \<^verbatim>\<open>sayHello\<close> decorated with
  \<^verbatim>\<open>name = default_username\<close>; a provider that raises; and a function whose
  parameter \<^verbatim>\<open>x\<close> has no declared default.
\<close>

definition sayHello_deco :: "nat SignatureDecorator" where
  "sayHello_deco =
     (SignatureDecorator_init [dynamic_defaults_update [(''name'', default_username)]] False True)
       \<lparr>sd_func := Some sayHello, sd_signature := Some (fsig sayHello)\<rparr>"

definition unavailable_username :: "nat val" where
  "unavailable_username =
     VCallable ''unavailable_username'' (\<lambda>w. (Inl (Exception ''KeyError''), Suc w))"

definition sayHello_deco2 :: "nat SignatureDecorator" where
  "sayHello_deco2 =
     (SignatureDecorator_init [dynamic_defaults_update [(''name'', unavailable_username)]] False True)
       \<lparr>sd_func := Some sayHello, sd_signature := Some (fsig sayHello)\<rparr>"

definition require_x :: "nat func" where
  "require_x =
     \<lparr>fname = ''f'',
      fsig = [\<lparr>pname = ''x'', pkind = POSITIONAL_OR_KEYWORD, pdefault = None\<rparr>],
      fbody = (\<lambda>env w. (case map_of env ''x'' of
                            Some v \<Rightarrow> Inr v
                          | None \<Rightarrow> Inl (Exception ''unbound local variable''), w))\<rparr>"

definition require_x_deco :: "nat SignatureDecorator" where
  "require_x_deco =
     (SignatureDecorator_init [dynamic_defaults_update [(''x'', default_username)]] False True)
       \<lparr>sd_func := Some require_x, sd_signature := Some (fsig require_x)\<rparr>"

text \<open>
  The end-to-end example of the specification: \<^verbatim>\<open>def f(a, b=2): return a + b\<close>
  with a callback that sets \<^verbatim>\<open>b\<close> to 99 when it is absent, followed by a callback
  that copies the value of \<^verbatim>\<open>b\<close> it sees into the world.
\<close>

definition f_ab :: "nat func" where
  "f_ab =
     \<lparr>fname = ''f'',
      fsig = [\<lparr>pname = ''a'', pkind = POSITIONAL_OR_KEYWORD, pdefault = None\<rparr>,
              \<lparr>pname = ''b'', pkind = POSITIONAL_OR_KEYWORD, pdefault = Some (VInt 2)\<rparr>],
      fbody = (\<lambda>env w. (case (map_of env ''a'', map_of env ''b'') of
                            (Some (VInt a), Some (VInt b)) \<Rightarrow> Inr (VInt (a + b))
                          | _ \<Rightarrow> Inl (TypeError ''unsupported operand type''), w))\<rparr>"

definition set_b :: "nat callback" where
  "set_b arg w =
     (case arg_boundarguments arg of
        None \<Rightarrow> (Inl (AttributeError ''boundarguments''), w, [])
      | Some ba \<Rightarrow>
          if has_key (arguments ba) ''b'' then (Inr ba, w, [])
          else (Inr (ba\<lparr>arguments := AList.update ''b'' (VInt 99) (arguments ba)\<rparr>), w, []))"

definition see_b :: "nat callback" where
  "see_b arg w =
     (case arg_boundarguments arg of
        None \<Rightarrow> (Inl (AttributeError ''boundarguments''), w, [])
      | Some ba \<Rightarrow>
          (Inr ba, (case map_of (arguments ba) ''b'' of Some (VInt n) \<Rightarrow> nat n | _ \<Rightarrow> w), []))"

definition f_ab_sig :: "nat SignatureDecorator" where
  "f_ab_sig =
     (SignatureDecorator_init [set_b, see_b] False True)
       \<lparr>sd_func := Some f_ab, sd_signature := Some (fsig f_ab)\<rparr>"

definition f_ab_bound :: "nat BoundArguments" where
  "f_ab_bound = \<lparr>ba_signature = fsig f_ab, arguments = [(''a'', VInt 1)]\<rparr>"

definition f_ab_bound99 :: "nat BoundArguments" where
  "f_ab_bound99 = \<lparr>ba_signature = fsig f_ab, arguments = [(''a'', VInt 1), (''b'', VInt 99)]\<rparr>"

text \<open>The parameter \<^verbatim>\<open>b\<close> of that function.\<close>

definition param_b :: "nat parameter" where
  "param_b = \<lparr>pname = ''b'', pkind = POSITIONAL_OR_KEYWORD, pdefault = Some (VInt 2)\<rparr>"



section \<open>Properties\<close>

text \<open>The definitions that evaluate a call of a function on concrete arguments.\<close>

lemmas call_defs = py_call_def initialize_locals_def positional_def positional_only_def
  keyword_only_def by_keyword_def has_varargs_def has_varkeywords_def missing_arguments_def
  local_value_def

subsection \<open>Reuse of a \<^verbatim>\<open>SignatureDecorator\<close> instance\<close>

text \<open>
  C1.  The class documentation promises that an instance applied to one function
  raises when it is applied to a second one.  \<^verbatim>\<open>__call__\<close> tests
  \<^verbatim>\<open>self._isset\<close>, but no statement ever sets it: a new instance applied to
  \<open>f\<close> and then to \<open>g\<close> is accepted both times, and the instance then holds
  \<open>g\<close> and its signature.
\<close>

theorem SignatureDecorator_reuse_accepted:
  "\<exists>d. SignatureDecorator_call (SignatureDecorator_init cbs ad aself) f = Inr d \<and>
       SignatureDecorator_call d g = Inr (d\<lparr>sd_func := Some g, sd_signature := Some (fsig g)\<rparr>)"
  by (simp add: SignatureDecorator_call_def SignatureDecorator_init_def)

subsection \<open>Validation of the configured names at decoration time\<close>

lemma ondecoration_loop_unknown:
  assumes "\<exists>k \<in> set ks. k \<notin> set (map pname params)" and "v_func sigdecor = Some func"
  shows "\<exists>k \<in> set ks. k \<notin> set (map pname params) \<and>
     ondecoration_loop ks params sigdecor =
       Some (TypeError (''dynamic_defaults got an unexpected keyword argument for the function ''
                          @ fname func @ '': '' @ k))"
  using assms by (induction ks) auto

lemma ondecoration_loop_known:
  "set ks \<subseteq> set (map pname params) \<Longrightarrow> ondecoration_loop ks params sigdecor = None"
  by (induction ks) auto

text \<open>
  C5.  If some configured name is not a parameter of the decorated function, the
  decoration itself fails: \<open>dynamic_defaults kw func\<close> yields no wrapper but a
  \<^verbatim>\<open>TypeError\<close> whose message contains the name of the function and a configured
  name that is not a parameter; the world is unchanged.
\<close>

theorem dynamic_defaults_unknown_parameter:
  assumes "\<exists>k \<in> set (map fst kw). k \<notin> set (map pname (fsig func))"
  shows "\<exists>k \<in> set (map fst kw). k \<notin> set (map pname (fsig func)) \<and>
     dynamic_defaults kw func w =
       (Inl (TypeError (''dynamic_defaults got an unexpected keyword argument for the function ''
                          @ fname func @ '': '' @ k)), w)"
proof -
  let ?deco = "(SignatureDecorator_init [dynamic_defaults_update kw] False True)
                 \<lparr>sd_func := Some func, sd_signature := Some (fsig func)\<rparr>"
  have v: "v_func (view ?deco) = Some func"
    by (simp add: view_def)
  from ondecoration_loop_unknown[OF assms v]
  obtain k where k: "k \<in> set (map fst kw)" "k \<notin> set (map pname (fsig func))"
    and l: "ondecoration_loop (map fst kw) (fsig func) (view ?deco) =
       Some (TypeError (''dynamic_defaults got an unexpected keyword argument for the function ''
                          @ fname func @ '': '' @ k))"
    by blast
  have "dynamic_defaults kw func w =
       (Inl (TypeError (''dynamic_defaults got an unexpected keyword argument for the function ''
                          @ fname func @ '': '' @ k)), w)"
    using l
    by (simp add: dynamic_defaults_def SignatureDecorator_factory_def SignatureDecorator_call_def
        SignatureDecorator_init_def dynamic_defaults_ondecoration_def view_def)
  with k show ?thesis by blast
qed

theorem dynamic_defaults_unknown_parameter_witness:
  "(\<exists>k \<in> set (map fst [(''nme'', default_username)]). k \<notin> set (map pname (fsig sayHello))) \<and>
   dynamic_defaults [(''nme'', default_username)] sayHello 0 =
     (Inl (TypeError ''dynamic_defaults got an unexpected keyword argument for the function sayHello: nme''), 0)"
proof -
  have h: "\<exists>k \<in> set (map fst [(''nme'', default_username)]). k \<notin> set (map pname (fsig sayHello))"
    by (simp add: sayHello_def name_param_def)
  from dynamic_defaults_unknown_parameter[OF h, of 0] show ?thesis
    using h by (auto simp: sayHello_def)
qed

subsection \<open>The defaulting property\<close>




subsection \<open>The callback loop\<close>

lemma run_callbacks_nth:
  "run_callbacks mk cbs i ba w = (None, ba', w', tr) \<Longrightarrow> j < length cbs \<Longrightarrow>
     \<exists>b w0 b1 w1 sub. (cbs ! j) (mk b) w0 = (Inr b1, w1, sub) \<and>
        tr ! j = Call (CallbackCalled (i + j) (mk b)) sub"
proof (induction cbs arbitrary: i ba w tr j)
  case Nil
  then show ?case by simp
next
  case (Cons c cbs)
  from Cons.prems(1) obtain b1 w1 sub tr' where
    c: "c (mk ba) w = (Inr b1, w1, sub)" and
    r: "run_callbacks mk cbs (Suc i) b1 w1 = (None, ba', w', tr')" and
    t: "tr = Call (CallbackCalled i (mk ba)) sub # tr'"
    by (auto split: prod.splits sum.splits)
  show ?case
  proof (cases j)
    case 0
    with c t show ?thesis by auto
  next
    case (Suc j')
    with Cons.prems(2) have "j' < length cbs" by simp
    from Cons.IH[OF r this] Suc t show ?thesis by auto
  qed
qed

lemma run_callbacks_indices:
  "run_callbacks mk cbs i ba w = (None, ba', w', tr) \<Longrightarrow>
     map (callback_index \<circ> invocation_of) tr = map Some [i..<i + length cbs]"
proof (induction cbs arbitrary: i ba w tr)
  case Nil
  then show ?case by simp
next
  case (Cons c cbs)
  from Cons.prems obtain b1 w1 sub tr' where
    r: "run_callbacks mk cbs (Suc i) b1 w1 = (None, ba', w', tr')" and
    t: "tr = Call (CallbackCalled i (mk ba)) sub # tr'"
    by (auto split: prod.splits sum.splits)
  from Cons.IH[OF r] t show ?case
    by (simp add: upt_rec)
qed

lemma run_callbacks_length:
  "run_callbacks mk cbs i ba w = (None, ba', w', tr) \<Longrightarrow> length tr = length cbs"
  using run_callbacks_indices[of mk cbs i ba w ba' w' tr] by (metis length_map length_upt add_diff_cancel_left')

lemma call_bound_returns:
  "call_bound func ba w = (Inr r, w', tr) \<Longrightarrow>
     \<exists>a k. ba_args ba = Inr a \<and> ba_kwargs ba = Inr k \<and> py_call func a k w = (Inr r, w') \<and>
       tr = [Call (FuncCalled (fname func) a k) []]"
  by (auto simp: call_bound_def split: sum.splits prod.splits)

lemma factory_returns:
  assumes "signature_decorator_factory cbs flag func args kw w = (Inr r, w', tr)"
  shows "\<exists>ba0 ba' w1 cs t. bind (fsig func) args kw = Inr ba0 \<and>
     run_callbacks ArgBoundArguments cbs 0 (if flag then apply_defaults ba0 else ba0) w
       = (None, ba', w1, cs) \<and>
     call_bound func ba' w1 = (Inr r, w', t) \<and> tr = cs @ t"
  using assms unfolding signature_decorator_factory_def Let_def
  by (auto split: sum.splits prod.splits option.splits)

lemma inner_returns:
  assumes "SignatureDecorator_inner func self args kw w = ((Inr r, w', tr), self')"
  shows "\<exists>sig ba0 ba' w1 cs t. sd_signature self = Some sig \<and> bind sig args kw = Inr ba0 \<and>
     run_callbacks (callback_arg self) (sd_callbacks self) 0
       (if sd_apply_defaults self then apply_defaults ba0 else ba0) w = (None, ba', w1, cs) \<and>
     call_bound func ba' w1 = (Inr r, w', t) \<and> tr = cs @ t \<and>
     self' = self\<lparr>boundarguments := Some ba'\<rparr>"
  using assms unfolding SignatureDecorator_inner_def Let_def
  by (auto split: sum.splits prod.splits option.splits)

lemma callbacks_then_target:
  assumes r: "run_callbacks mk cbs 0 ba w = (None, ba', w1, cs)"
    and c: "call_bound func ba' w1 = (Inr r, w', t)"
  shows "map (callback_index \<circ> invocation_of) (cs @ t) = map Some [0..<length cbs] @ [None] \<and>
     is_FuncCalled (invocation_of (last (cs @ t))) \<and>
     (\<forall>j<length cbs. \<exists>b w0 b1 w2 sub. (cbs ! j) (mk b) w0 = (Inr b1, w2, sub) \<and>
          (cs @ t) ! j = Call (CallbackCalled j (mk b)) sub)"
proof -
  from call_bound_returns[OF c] obtain a k where t: "t = [Call (FuncCalled (fname func) a k) []]"
    by blast
  have l: "length cs = length cbs"
    using run_callbacks_length[OF r] .
  have n: "\<forall>j<length cbs. \<exists>b w0 b1 w2 sub. (cbs ! j) (mk b) w0 = (Inr b1, w2, sub) \<and>
          (cs @ t) ! j = Call (CallbackCalled j (mk b)) sub"
    using run_callbacks_nth[OF r] l by (simp add: nth_append)
  show ?thesis
    using run_callbacks_indices[OF r] t n by simp
qed

text \<open>
  C2.  When a call of the decorated function returns, the recorded invocations are the
  callbacks at positions \<open>0, 1, \<dots>\<close> of the callback tuple, each once and in that
  order, followed by the target (the last entry, the only one that is not a callback);
  the entry at position \<open>j\<close> is an invocation of the \<open>j\<close>-th callback that
  returned.  This holds for the wrapper of \<^verbatim>\<open>signature_decorator_factory\<close> and for
  the wrapper of a \<^verbatim>\<open>SignatureDecorator\<close> instance, for every callback list.
\<close>

theorem callbacks_once_in_order:
  "(signature_decorator_factory cbs flag func args kw w = (Inr r, w', tr) \<longrightarrow>
      map (callback_index \<circ> invocation_of) tr = map Some [0..<length cbs] @ [None] \<and>
      is_FuncCalled (invocation_of (last tr)) \<and>
      (\<forall>j<length cbs. \<exists>b w0 b1 w2 sub.
          (cbs ! j) (ArgBoundArguments b) w0 = (Inr b1, w2, sub) \<and>
          tr ! j = Call (CallbackCalled j (ArgBoundArguments b)) sub)) \<and>
   (SignatureDecorator_inner func self args kw w = ((Inr rs, ws, trs), self') \<longrightarrow>
      map (callback_index \<circ> invocation_of) trs = map Some [0..<length (sd_callbacks self)] @ [None] \<and>
      is_FuncCalled (invocation_of (last trs)) \<and>
      (\<forall>j<length (sd_callbacks self). \<exists>b w0 b1 w2 sub.
          (sd_callbacks self ! j) (callback_arg self b) w0 = (Inr b1, w2, sub) \<and>
          trs ! j = Call (CallbackCalled j (callback_arg self b)) sub))"
proof (intro conjI impI)
  assume a: "signature_decorator_factory cbs flag func args kw w = (Inr r, w', tr)"
  from factory_returns[OF a] obtain ba ba' w1 cs t where
    r: "run_callbacks ArgBoundArguments cbs 0 ba w = (None, ba', w1, cs)" and
    c: "call_bound func ba' w1 = (Inr r, w', t)" and t: "tr = cs @ t"
    by blast
  note * = callbacks_then_target[OF r c, folded t]
  from * show "map (callback_index \<circ> invocation_of) tr = map Some [0..<length cbs] @ [None]"
    by blast
  from * show "is_FuncCalled (invocation_of (last tr))"
    by blast
  from * show "\<forall>j<length cbs. \<exists>b w0 b1 w2 sub.
          (cbs ! j) (ArgBoundArguments b) w0 = (Inr b1, w2, sub) \<and>
          tr ! j = Call (CallbackCalled j (ArgBoundArguments b)) sub"
    by blast
next
  assume a: "SignatureDecorator_inner func self args kw w = ((Inr rs, ws, trs), self')"
  from inner_returns[OF a] obtain ba ba' w1 cs t where
    r: "run_callbacks (callback_arg self) (sd_callbacks self) 0 ba w = (None, ba', w1, cs)" and
    c: "call_bound func ba' w1 = (Inr rs, ws, t)" and t: "trs = cs @ t"
    by blast
  note * = callbacks_then_target[OF r c, folded t]
  from * show "map (callback_index \<circ> invocation_of) trs
      = map Some [0..<length (sd_callbacks self)] @ [None]"
    by blast
  from * show "is_FuncCalled (invocation_of (last trs))"
    by blast
  from * show "\<forall>j<length (sd_callbacks self). \<exists>b w0 b1 w2 sub.
          (sd_callbacks self ! j) (callback_arg self b) w0 = (Inr b1, w2, sub) \<and>
          trs ! j = Call (CallbackCalled j (callback_arg self b)) sub"
    by blast
qed

theorem callbacks_once_in_order_witness:
  "fst (signature_decorator_factory [callback_check, callback_check_reverse] False test_func [] [] False)
     = Inr VNone \<and>
   map (callback_index \<circ> invocation_of)
     (snd (snd (signature_decorator_factory [callback_check, callback_check_reverse] False test_func [] [] False)))
     = [Some 0, Some 1, None] \<and>
   fst (fst (SignatureDecorator_inner test_func test_sig [] [] False)) = Inr VNone \<and>
   map (callback_index \<circ> invocation_of)
     (snd (snd (fst (SignatureDecorator_inner test_func test_sig [] [] False))))
     = [Some 0, Some 1, None]"
proof -
  obtain tr1 where h1:
    "signature_decorator_factory [callback_check, callback_check_reverse] False test_func [] [] False
       = (Inr VNone, False, tr1)"
    by (simp add: signature_decorator_factory_def bind_def callback_check_def
        callback_check_reverse_def test_func_def call_bound_def ba_args_def ba_kwargs_def
        call_defs apply_defaults_def dict_of_pairs_def Let_def)
  obtain tr2 self' where h2:
    "SignatureDecorator_inner test_func test_sig [] [] False = ((Inr VNone, False, tr2), self')"
    by (simp add: SignatureDecorator_inner_def test_sig_def SignatureDecorator_init_def bind_def
        callback_check_def callback_check_reverse_def test_func_def call_bound_def ba_args_def
        ba_kwargs_def call_defs apply_defaults_def dict_of_pairs_def callback_arg_def view_def Let_def)
  have l: "length (sd_callbacks test_sig) = 2"
    by (simp add: test_sig_def SignatureDecorator_init_def)
  from callbacks_once_in_order[of "[callback_check, callback_check_reverse]" False test_func
      "[]" "[]" False VNone False tr1 test_sig VNone False tr2 self'] h1 h2 l
  show ?thesis
    by (simp add: upt_rec)
qed

subsection \<open>Dictionaries and \<^verbatim>\<open>apply_defaults\<close>\<close>

lemma map_of_update: "map_of (AList.update k v al) k' = (if k' = k then Some v else map_of al k')"
  by (simp add: update_conv')

lemma has_key_update: "has_key (AList.update k v al) k' \<longleftrightarrow> k' = k \<or> has_key al k'"
  by (simp add: has_key_def map_of_update)

lemma has_key_iff: "has_key d k \<longleftrightarrow> k \<in> fst ` set d"
  by (simp add: has_key_def map_of_eq_None_iff)

lemma fold_update_distinct:
  "distinct (map fst (acc @ kvs)) \<Longrightarrow>
     fold (\<lambda>kv a. AList.update (fst kv) (snd kv) a) kvs acc = acc @ kvs"
proof (induction kvs arbitrary: acc)
  case Nil
  then show ?case by simp
next
  case (Cons kv kvs)
  have "fst kv \<notin> fst ` set acc" using Cons.prems by auto
  then have u: "AList.update (fst kv) (snd kv) acc = acc @ [kv]"
    by (induction acc) auto
  from Cons.prems have "distinct (map fst ((acc @ [kv]) @ kvs))" by simp
  from Cons.IH[OF this] u show ?case by simp
qed

lemma dict_of_pairs_distinct: "distinct (map fst kvs) \<Longrightarrow> dict_of_pairs kvs = kvs"
  using fold_update_distinct[of "[]" kvs] by (simp add: dict_of_pairs_def)

lemma new_arguments_keys: "set (map fst (new_arguments sig a)) \<subseteq> set (map pname sig)"
  by (induction sig) (auto split: option.splits)

lemma new_arguments_distinct:
  "distinct (map pname sig) \<Longrightarrow> distinct (map fst (new_arguments sig a))"
proof (induction sig)
  case Nil
  then show ?case by simp
next
  case (Cons p sig)
  then show ?case using new_arguments_keys[of sig a]
    by (auto split: option.splits)
qed

lemma new_arguments_bound:
  "p \<in> set sig \<Longrightarrow> distinct (map pname sig) \<Longrightarrow> map_of a (pname p) = Some v \<Longrightarrow>
     map_of (new_arguments sig a) (pname p) = Some v"
proof (induction sig)
  case Nil
  then show ?case by simp
next
  case (Cons q sig)
  then show ?case
    by (auto split: option.splits simp: rev_image_eqI)
qed

lemma new_arguments_default:
  "p \<in> set sig \<Longrightarrow> distinct (map pname sig) \<Longrightarrow> map_of a (pname p) = None \<Longrightarrow>
     pdefault p = Some d \<Longrightarrow> map_of (new_arguments sig a) (pname p) = Some d"
proof (induction sig)
  case Nil
  then show ?case by simp
next
  case (Cons q sig)
  then show ?case
    by (auto split: option.splits simp: rev_image_eqI)
qed

lemma apply_defaults_arguments:
  "distinct (map pname (ba_signature ba)) \<Longrightarrow>
     arguments (apply_defaults ba) = new_arguments (ba_signature ba) (arguments ba)"
  by (simp add: apply_defaults_def dict_of_pairs_distinct new_arguments_distinct)

lemma apply_defaults_signature [simp]: "ba_signature (apply_defaults ba) = ba_signature ba"
  by (simp add: apply_defaults_def)

lemma bind_signature: "bind sig args kw = Inr ba \<Longrightarrow> ba_signature ba = sig"
  by (auto simp: bind_def split: sum.splits prod.splits list.splits option.splits)

lemma wf_signature_distinct: "wf_signature sig \<Longrightarrow> distinct (map pname sig)"
  by (simp add: wf_signature_def)

lemma update_loop_step:
  "update_loop ((k, v) # items) argmap w =
     (if \<not> has_key argmap k
      then (case update_loop items (AList.update k (stored_value v (fst (call0 v w))) argmap) (snd (call0 v w)) of
              (a, w'', tr) \<Rightarrow> (a, w'', Call (ProviderCalled k) [] # tr))
      else update_loop items argmap w)"
  by (auto simp: stored_value_def split: prod.splits sum.splits)

lemma update_loop_keeps:
  "has_key argmap k \<Longrightarrow> update_loop items argmap w = (argmap', w', tr) \<Longrightarrow>
     map_of argmap' k = map_of argmap k"
proof (induction items arbitrary: argmap w tr)
  case Nil
  then show ?case by simp
next
  case (Cons kv items)
  obtain k' v where kv: "kv = (k', v)" by (cases kv)
  show ?case
  proof (cases "has_key argmap k'")
    case True
    with Cons kv show ?thesis by simp
  next
    case False
    with Cons.prems(1) have ne: "k \<noteq> k'" by auto
    from Cons.prems(2) kv False obtain tr' where
      "update_loop items (AList.update k' (stored_value v (fst (call0 v w))) argmap) (snd (call0 v w))
         = (argmap', w', tr')"
      by (auto simp: update_loop_step simp del: update_loop.simps split: prod.splits)
    from Cons.IH[OF _ this] Cons.prems(1) ne show ?thesis
      by (simp add: has_key_update map_of_update)
  qed
qed

lemma update_loop_append:
  "update_loop (pre @ post) argmap w =
     (case update_loop pre argmap w of
        (a1, w1, t1) \<Rightarrow> (case update_loop post a1 w1 of (a2, w2, t2) \<Rightarrow> (a2, w2, t1 @ t2)))"
  by (induction pre argmap w rule: update_loop.induct)
     (auto split: prod.splits sum.splits)

lemma update_loop_trace:
  "distinct (map fst items) \<Longrightarrow> update_loop items argmap w = (argmap', w', tr) \<Longrightarrow>
     tr = map (\<lambda>k. Call (ProviderCalled k) []) (filter (\<lambda>k. \<not> has_key argmap k) (map fst items))"
proof (induction items arbitrary: argmap w tr)
  case Nil
  then show ?case by simp
next
  case (Cons kv items)
  obtain k' v where kv: "kv = (k', v)" by (cases kv)
  from Cons.prems(1) kv have nk: "k' \<notin> fst ` set items" and d: "distinct (map fst items)" by auto
  show ?case
  proof (cases "has_key argmap k'")
    case True
    with Cons kv d show ?thesis by simp
  next
    case False
    from Cons.prems(2) kv False obtain tr' where
      u: "update_loop items (AList.update k' (stored_value v (fst (call0 v w))) argmap) (snd (call0 v w))
         = (argmap', w', tr')" and t: "tr = Call (ProviderCalled k') [] # tr'"
      by (auto simp: update_loop_step simp del: update_loop.simps split: prod.splits)
    have f: "filter (\<lambda>k. \<not> has_key (AList.update k' (stored_value v (fst (call0 v w))) argmap) k) (map fst items)
        = filter (\<lambda>k. \<not> has_key argmap k) (map fst items)"
      using nk by (intro filter_cong) (auto simp: has_key_update)
    from Cons.IH[OF d u] f t kv False show ?thesis by simp
  qed
qed

lemma update_loop_absent:
  "\<not> has_key argmap k \<Longrightarrow> k \<notin> fst ` set items \<Longrightarrow>
     update_loop items argmap w = (argmap', w', tr) \<Longrightarrow> \<not> has_key argmap' k"
proof (induction items arbitrary: argmap w tr)
  case Nil
  then show ?case by simp
next
  case (Cons kv items)
  obtain k' v where kv: "kv = (k', v)" by (cases kv)
  with Cons.prems(2) have ne: "k \<noteq> k'" and ni: "k \<notin> fst ` set items" by auto
  show ?case
  proof (cases "has_key argmap k'")
    case True
    with Cons.prems kv Cons.IH[OF Cons.prems(1) ni] show ?thesis by simp
  next
    case False
    from Cons.prems(3) kv False obtain tr' where
      u: "update_loop items (AList.update k' (stored_value v (fst (call0 v w))) argmap) (snd (call0 v w))
         = (argmap', w', tr')"
      by (auto simp: update_loop_step simp del: update_loop.simps split: prod.splits)
    have "\<not> has_key (AList.update k' (stored_value v (fst (call0 v w))) argmap) k"
      using Cons.prems(1) ne by (simp add: has_key_update)
    from Cons.IH[OF this ni u] show ?thesis .
  qed
qed

lemma update_loop_first:
  assumes na: "\<not> has_key argmap k" and np: "k \<notin> fst ` set pre"
    and p: "update_loop pre argmap w = (a1, w1, t1)"
    and u: "update_loop (pre @ (k, v) # post) argmap w = (argmap', w', tr)"
  shows "map_of argmap' k = Some (stored_value v (fst (call0 v w1)))"
proof -
  have nk: "\<not> has_key a1 k"
    using update_loop_absent[OF na np p] .
  from u p obtain t2 where
    s: "update_loop ((k, v) # post) a1 w1 = (argmap', w', t2)"
    by (auto simp: update_loop_append simp del: update_loop.simps split: prod.splits)
  let ?a = "AList.update k (stored_value v (fst (call0 v w1))) a1"
  from s nk obtain t3 where
    r: "update_loop post ?a (snd (call0 v w1)) = (argmap', w', t3)"
    by (auto simp: update_loop_step simp del: update_loop.simps split: prod.splits)
  have "has_key ?a k" by (simp add: has_key_update)
  from update_loop_keeps[OF this r] show ?thesis
    by (simp add: map_of_update)
qed

lemma call0_not_callable: "\<not> callable v \<Longrightarrow> call0 v w = (Inl (TypeError ''object is not callable''), w)"
  by (cases v) auto

lemma ondecoration_loop_None:
  "ondecoration_loop ks params sigdecor = None \<Longrightarrow> set ks \<subseteq> set (map pname params)"
  by (induction ks) (auto split: if_splits option.splits)

lemma dynamic_defaults_decorated:
  assumes "dynamic_defaults cfg func w0 = (Inr self0, w0')"
  shows "self0 = (SignatureDecorator_init [dynamic_defaults_update cfg] False True)
                   \<lparr>sd_func := Some func, sd_signature := Some (fsig func)\<rparr>"
    and "w0' = w0"
    and "set (map fst cfg) \<subseteq> set (map pname (fsig func))"
proof -
  let ?deco = "(SignatureDecorator_init [dynamic_defaults_update cfg] False True)
                   \<lparr>sd_func := Some func, sd_signature := Some (fsig func)\<rparr>"
  have c: "SignatureDecorator_call (SignatureDecorator_init [dynamic_defaults_update cfg] False True) func
      = Inr ?deco"
    by (simp add: SignatureDecorator_call_def SignatureDecorator_init_def)
  have s: "v_signature (view ?deco) = Some (fsig func)"
    by (simp add: view_def)
  from assms have h: "(case ondecoration_loop (map fst cfg) (fsig func) (view ?deco) of
        Some e \<Rightarrow> (Inl e, w0) | None \<Rightarrow> (Inr ?deco, w0)) = (Inr self0, w0')"
    by (simp add: dynamic_defaults_def SignatureDecorator_factory_def c
        dynamic_defaults_ondecoration_def s del: SignatureDecorator_init_def)
  then have n: "ondecoration_loop (map fst cfg) (fsig func) (view ?deco) = None"
    by (auto split: option.splits)
  with h show "self0 = ?deco" and "w0' = w0" by auto
  from ondecoration_loop_None[OF n] show "set (map fst cfg) \<subseteq> set (map pname (fsig func))" .
qed

lemma dynamic_defaults_call:
  assumes deco: "dynamic_defaults cfg func w0 = (Inr self0, w0')"
    and self: "self = self0\<lparr>boundarguments := b\<rparr>"
    and bnd: "bind (fsig func) args kw = Inr ba"
    and upd: "update_loop cfg (arguments ba) w = (argmap, w1, sub)"
  shows "SignatureDecorator_inner func self args kw w =
     (case call_bound func (apply_defaults (ba\<lparr>arguments := argmap\<rparr>)) w1 of
        (r, w2, t) \<Rightarrow>
          ((r, w2, Call (CallbackCalled 0 (callback_arg self ba)) sub # t),
           self\<lparr>boundarguments := Some (apply_defaults (ba\<lparr>arguments := argmap\<rparr>))\<rparr>))"
proof -
  note d = dynamic_defaults_decorated(1)[OF deco]
  have f: "sd_signature self = Some (fsig func)" "sd_apply_defaults self = False"
    "sd_apply_self self = True" "sd_callbacks self = [dynamic_defaults_update cfg]"
    by (simp_all add: self d SignatureDecorator_init_def)
  have a: "callback_arg self ba = ArgSelf (view (self\<lparr>boundarguments := Some ba\<rparr>))"
    by (simp add: callback_arg_def f)
  have u: "dynamic_defaults_update cfg (callback_arg self ba) w =
      (Inr (apply_defaults (ba\<lparr>arguments := argmap\<rparr>)), w1, sub)"
    by (simp add: a dynamic_defaults_update_def view_def upd)
  show ?thesis
    by (simp add: SignatureDecorator_inner_def f bnd u split: prod.splits)
qed

lemma apply_defaults_keeps:
  assumes "distinct (map pname (ba_signature ba))" and "k \<in> set (map pname (ba_signature ba))"
    and "map_of (arguments ba) k = Some v"
  shows "map_of (arguments (apply_defaults ba)) k = Some v"
proof -
  from assms(2) obtain p where "p \<in> set (ba_signature ba)" "pname p = k" by auto
  with new_arguments_bound[of p "ba_signature ba" "arguments ba" v] assms(1,3)
  show ?thesis by (simp add: apply_defaults_arguments)
qed

lemma provider_calls_Cons:
  "provider_calls (Call c sub # t) k =
     (if provider_name c = Some k then 1 else 0) + provider_calls sub k + provider_calls t k"
  by (simp add: provider_calls_def)

lemma provider_calls_Nil [simp]: "provider_calls [] k = 0"
  by (simp add: provider_calls_def)

lemma provider_calls_call_bound:
  "call_bound func ba w = (r, w', t) \<Longrightarrow> provider_calls t k = 0"
  by (auto simp: call_bound_def provider_calls_Cons split: sum.splits prod.splits)

lemma count_distinct:
  "distinct xs \<Longrightarrow> length (filter (\<lambda>x. x = k) xs) = (if k \<in> set xs then 1 else 0)"
  by (induction xs) auto

lemma provider_calls_providers:
  "provider_calls (map (\<lambda>k. Call (ProviderCalled k) []) ks) k = length (filter (\<lambda>x. x = k) ks)"
  by (induction ks) (auto simp: provider_calls_Cons)

lemma update_loop_provider_calls:
  assumes "distinct (map fst items)" and "update_loop items argmap w = (argmap', w', tr)"
  shows "provider_calls tr k = (if k \<in> fst ` set items \<and> \<not> has_key argmap k then 1 else 0)"
proof -
  have "distinct (filter (\<lambda>k. \<not> has_key argmap k) (map fst items))"
    using assms(1) by simp
  from count_distinct[OF this, of k] update_loop_trace[OF assms] show ?thesis
    by (simp add: provider_calls_providers)
qed

subsection \<open>Dynamic defaults\<close>

text \<open>
  C3 (as amended).  Let \<open>func\<close> be decorated by \<open>dynamic_defaults cfg\<close>, \<open>cfg\<close>
  configuring \<open>v\<close> for the parameter \<open>k\<close>, and let a call bind against the
  signature, with bound arguments \<open>ba\<close>.  Then the call runs the one callback and
  invokes the target with the bound arguments \<open>ba'\<close>, and: if the call supplied
  \<open>k\<close> (it is bound in \<open>ba\<close>), the provider of \<open>k\<close> is not invoked anywhere in
  the call and \<open>k\<close> keeps the supplied value; if it did not, the provider of \<open>k\<close>
  is invoked exactly once, and when that invocation (in the world left by the
  providers configured before it) returns \<open>r\<close>, the value of \<open>k\<close> in \<open>ba'\<close> is
  \<open>r\<close>.
\<close>

theorem dynamic_defaults_provider_once:
  assumes deco: "dynamic_defaults cfg func w0 = (Inr self0, w0')"
    and self: "self = self0\<lparr>boundarguments := b\<rparr>"
    and wf: "wf_signature (fsig func)"
    and dk: "distinct (map fst cfg)"
    and bnd: "bind (fsig func) args kw = Inr ba"
    and cfg: "cfg = pre @ (k, v) # post"
  shows "\<exists>argmap w' sub ba'. update_loop cfg (arguments ba) w = (argmap, w', sub) \<and>
     ba' = apply_defaults (ba\<lparr>arguments := argmap\<rparr>) \<and>
     fst (SignatureDecorator_inner func self args kw w) =
       (case call_bound func ba' w' of
          (r, w'', t) \<Rightarrow> (r, w'', Call (CallbackCalled 0 (callback_arg self ba)) sub # t)) \<and>
     (if has_key (arguments ba) k
      then provider_calls (snd (snd (fst (SignatureDecorator_inner func self args kw w)))) k = 0 \<and>
           map_of (arguments ba') k = map_of (arguments ba) k
      else provider_calls (snd (snd (fst (SignatureDecorator_inner func self args kw w)))) k = 1 \<and>
           (\<forall>a1 w1 t1 r w2. update_loop pre (arguments ba) w = (a1, w1, t1) \<and>
                call0 v w1 = (Inr r, w2) \<longrightarrow> map_of (arguments ba') k = Some r))"
proof -
  obtain argmap w' sub where u: "update_loop cfg (arguments ba) w = (argmap, w', sub)"
    by (cases "update_loop cfg (arguments ba) w") auto
  define ba' where "ba' = apply_defaults (ba\<lparr>arguments := argmap\<rparr>)"
  obtain r w'' t where cb: "call_bound func ba' w' = (r, w'', t)"
    by (cases "call_bound func ba' w'") auto
  have inner: "fst (SignatureDecorator_inner func self args kw w) =
       (r, w'', Call (CallbackCalled 0 (callback_arg self ba)) sub # t)"
    by (simp add: dynamic_defaults_call[OF deco self bnd u] cb[unfolded ba'_def])
  have kin: "k \<in> fst ` set cfg" using cfg by force
  have pc: "provider_calls (snd (snd (fst (SignatureDecorator_inner func self args kw w)))) k =
      (if has_key (arguments ba) k then 0 else 1)"
    using update_loop_provider_calls[OF dk u, of k] provider_calls_call_bound[OF cb, of k] kin
    by (simp add: inner provider_calls_Cons)
  have s: "ba_signature (ba\<lparr>arguments := argmap\<rparr>) = fsig func"
    using bind_signature[OF bnd] by simp
  have kp: "k \<in> set (map pname (fsig func))"
    using dynamic_defaults_decorated(3)[OF deco] cfg by auto
  have keep: "map_of (arguments ba') k = Some x" if "map_of argmap k = Some x" for x
    using apply_defaults_keeps[of "ba\<lparr>arguments := argmap\<rparr>" k x] s kp that
      wf_signature_distinct[OF wf] by (simp add: ba'_def)
  have sup: "map_of (arguments ba') k = map_of (arguments ba) k" if h: "has_key (arguments ba) k"
  proof -
    from h obtain x where x: "map_of (arguments ba) k = Some x"
      by (auto simp: has_key_def)
    from update_loop_keeps[OF h u] x keep show ?thesis by simp
  qed
  have uns: "map_of (arguments ba') k = Some r'"
    if h: "\<not> has_key (arguments ba) k" and p: "update_loop pre (arguments ba) w = (a1, w1, t1)"
      and c: "call0 v w1 = (Inr r', w2)" for a1 w1 t1 r' w2
  proof -
    from dk cfg have np: "k \<notin> fst ` set pre" by auto
    from update_loop_first[OF h np p u[unfolded cfg]] c
    have "map_of argmap k = Some r'" by (simp add: stored_value_def)
    then show ?thesis by (rule keep)
  qed
  have "fst (SignatureDecorator_inner func self args kw w) =
       (case call_bound func ba' w' of
          (r, w'', t) \<Rightarrow> (r, w'', Call (CallbackCalled 0 (callback_arg self ba)) sub # t))"
    by (simp add: inner cb)
  with u ba'_def pc sup uns show ?thesis
    by (intro exI[of _ argmap] exI[of _ w'] exI[of _ sub] exI[of _ ba']) auto
qed

theorem dynamic_defaults_provider_once_witness:
  "dynamic_defaults [(''name'', default_username)] sayHello 0 = (Inr sayHello_deco, 0) \<and>
   wf_signature (fsig sayHello) \<and>
   bind (fsig sayHello) [] [] = Inr \<lparr>ba_signature = fsig sayHello, arguments = []\<rparr> \<and>
   \<not> has_key (arguments \<lparr>ba_signature = fsig sayHello, arguments = []\<rparr>) ''name'' \<and>
   call0 default_username 0 = (Inr (VStr ''World''), 1) \<and>
   fst (fst (SignatureDecorator_inner sayHello sayHello_deco [] [] 0)) = Inr (VStr ''World'') \<and>
   provider_calls (snd (snd (fst (SignatureDecorator_inner sayHello sayHello_deco [] [] 0)))) ''name'' = 1"
proof -
  have h1: "dynamic_defaults [(''name'', default_username)] sayHello 0 = (Inr sayHello_deco, 0)"
    by (simp add: dynamic_defaults_def SignatureDecorator_factory_def SignatureDecorator_call_def
        SignatureDecorator_init_def dynamic_defaults_ondecoration_def view_def sayHello_deco_def
        sayHello_def name_param_def)
  have h2: "sayHello_deco = sayHello_deco\<lparr>boundarguments := None\<rparr>"
    by (simp add: sayHello_deco_def SignatureDecorator_init_def)
  have h3: "wf_signature (fsig sayHello)"
    by (simp add: wf_signature_def sayHello_def name_param_def)
  have h4: "distinct (map fst [(''name'', default_username)])"
    by simp
  have h5: "bind (fsig sayHello) [] [] = Inr \<lparr>ba_signature = fsig sayHello, arguments = []\<rparr>"
    by (simp add: bind_def sayHello_def name_param_def has_key_def)
  have h6: "[(''name'', default_username)] = [] @ (''name'', default_username) # []"
    by simp
  have h7: "call0 default_username 0 = (Inr (VStr ''World''), 1)"
    by (simp add: default_username_def)
  have u: "update_loop [(''name'', default_username)]
             (arguments \<lparr>ba_signature = fsig sayHello, arguments = []\<rparr>) 0 =
           ([(''name'', VStr ''World'')], 1, [Call (ProviderCalled ''name'') []])"
    by (simp add: has_key_def default_username_def)
  have cb: "call_bound sayHello
              (apply_defaults (\<lparr>ba_signature = fsig sayHello, arguments = []\<rparr>
                                 \<lparr>arguments := [(''name'', VStr ''World'')]\<rparr>)) 1 =
            (Inr (VStr ''World''), 1, [Call (FuncCalled ''sayHello'' [VStr ''World''] ([], False)) []])"
    by (simp add: has_key_def apply_defaults_def dict_of_pairs_def call_bound_def
        ba_args_def ba_kwargs_def call_defs bind_def sayHello_def name_param_def)
  have e: "fst (SignatureDecorator_inner sayHello sayHello_deco [] [] 0) =
      (Inr (VStr ''World''), 1,
       [Call (CallbackCalled 0 (callback_arg sayHello_deco \<lparr>ba_signature = fsig sayHello, arguments = []\<rparr>))
          [Call (ProviderCalled ''name'') []],
        Call (FuncCalled ''sayHello'' [VStr ''World''] ([], False)) []])"
    using dynamic_defaults_call[OF h1 h2 h5 u] cb by simp
  from dynamic_defaults_provider_once[OF h1 h2 h3 h4 h5 h6, of 0] h1 h3 h5 h7 e u cb
  show ?thesis
    by (simp add: has_key_def provider_calls_def)
qed

text \<open>
  C3 as stated fails: a call that does not supply \<open>x\<close> need not bind.  When
  \<open>x\<close> has no declared default, the call without arguments is rejected by
  \<^verbatim>\<open>Signature.bind\<close> before the callback runs, and the provider is never invoked.
\<close>

theorem dynamic_defaults_required_parameter_counterexample:
  "dynamic_defaults [(''x'', default_username)] require_x 0 = (Inr require_x_deco, 0) \<and>
   SignatureDecorator_inner require_x require_x_deco [] [] 0 =
     ((Inl (TypeError (''missing a required argument: '' @ repr ''x'')), 0, []), require_x_deco) \<and>
   provider_calls (snd (snd (fst (SignatureDecorator_inner require_x require_x_deco [] [] 0)))) ''x'' = 0"
  by (simp add: dynamic_defaults_def SignatureDecorator_factory_def SignatureDecorator_call_def
      SignatureDecorator_init_def dynamic_defaults_ondecoration_def view_def require_x_deco_def
      require_x_def SignatureDecorator_inner_def bind_def has_key_def)

text \<open>
  C4.  Let \<open>func\<close> be decorated by \<open>dynamic_defaults cfg\<close> and let a call bind with
  bound arguments \<open>ba\<close> in which the configured parameter \<open>k\<close> is absent.  If its
  configured value \<open>v\<close> is not callable, or if invoking it (in the world \<open>w1\<close> left
  by the providers configured before it) raises, then the callback still returns, the
  target is invoked with the bound arguments \<open>ba'\<close>, so the outcome of the call is
  the target's, and the value of \<open>k\<close> in \<open>ba'\<close> is \<open>v\<close> itself.
\<close>

theorem dynamic_defaults_provider_failure:
  assumes deco: "dynamic_defaults cfg func w0 = (Inr self0, w0')"
    and self: "self = self0\<lparr>boundarguments := b\<rparr>"
    and wf: "wf_signature (fsig func)"
    and dk: "distinct (map fst cfg)"
    and bnd: "bind (fsig func) args kw = Inr ba"
    and cfg: "cfg = pre @ (k, v) # post"
    and absent: "\<not> has_key (arguments ba) k"
    and pre: "update_loop pre (arguments ba) w = (a1, w1, t1)"
    and fails: "\<not> callable v \<or> (\<exists>e w2. call0 v w1 = (Inl e, w2))"
  shows "\<exists>argmap w' sub. update_loop cfg (arguments ba) w = (argmap, w', sub) \<and>
     fst (SignatureDecorator_inner func self args kw w) =
       (case call_bound func (apply_defaults (ba\<lparr>arguments := argmap\<rparr>)) w' of
          (r, w'', t) \<Rightarrow> (r, w'', Call (CallbackCalled 0 (callback_arg self ba)) sub # t)) \<and>
     map_of (arguments (apply_defaults (ba\<lparr>arguments := argmap\<rparr>))) k = Some v"
proof -
  obtain argmap w' sub where u: "update_loop cfg (arguments ba) w = (argmap, w', sub)"
    by (cases "update_loop cfg (arguments ba) w") auto
  from dk cfg have np: "k \<notin> fst ` set pre" by auto
  from fails have "\<exists>e w2. call0 v w1 = (Inl e, w2)"
    using call0_not_callable[of v w1] by auto
  then have p: "stored_value v (fst (call0 v w1)) = v"
    by (auto simp: stored_value_def)
  from update_loop_first[OF absent np pre u[unfolded cfg]] p
  have m: "map_of argmap k = Some v" by simp
  have s: "ba_signature (ba\<lparr>arguments := argmap\<rparr>) = fsig func"
    using bind_signature[OF bnd] by simp
  have kp: "k \<in> set (map pname (fsig func))"
    using dynamic_defaults_decorated(3)[OF deco] cfg by auto
  have "map_of (arguments (apply_defaults (ba\<lparr>arguments := argmap\<rparr>))) k = Some v"
    using apply_defaults_keeps[of "ba\<lparr>arguments := argmap\<rparr>" k v] s kp m
      wf_signature_distinct[OF wf] by simp
  moreover have "fst (SignatureDecorator_inner func self args kw w) =
       (case call_bound func (apply_defaults (ba\<lparr>arguments := argmap\<rparr>)) w' of
          (r, w'', t) \<Rightarrow> (r, w'', Call (CallbackCalled 0 (callback_arg self ba)) sub # t))"
    by (simp add: dynamic_defaults_call[OF deco self bnd u] split: prod.splits)
  ultimately show ?thesis using u by blast
qed

theorem dynamic_defaults_provider_failure_witness:
  "dynamic_defaults [(''name'', unavailable_username)] sayHello 0 = (Inr sayHello_deco2, 0) \<and>
   wf_signature (fsig sayHello) \<and>
   bind (fsig sayHello) [] [] = Inr \<lparr>ba_signature = fsig sayHello, arguments = []\<rparr> \<and>
   \<not> has_key (arguments \<lparr>ba_signature = fsig sayHello, arguments = []\<rparr>) ''name'' \<and>
   call0 unavailable_username 0 = (Inl (Exception ''KeyError''), 1) \<and>
   fst (fst (SignatureDecorator_inner sayHello sayHello_deco2 [] [] 0)) = Inr unavailable_username"
proof -
  have h1: "dynamic_defaults [(''name'', unavailable_username)] sayHello 0 = (Inr sayHello_deco2, 0)"
    by (simp add: dynamic_defaults_def SignatureDecorator_factory_def SignatureDecorator_call_def
        SignatureDecorator_init_def dynamic_defaults_ondecoration_def view_def sayHello_deco2_def
        sayHello_def name_param_def)
  have h2: "sayHello_deco2 = sayHello_deco2\<lparr>boundarguments := None\<rparr>"
    by (simp add: sayHello_deco2_def SignatureDecorator_init_def)
  have h3: "wf_signature (fsig sayHello)"
    by (simp add: wf_signature_def sayHello_def name_param_def)
  have h4: "distinct (map fst [(''name'', unavailable_username)])"
    by simp
  have h5: "bind (fsig sayHello) [] [] = Inr \<lparr>ba_signature = fsig sayHello, arguments = []\<rparr>"
    by (simp add: bind_def sayHello_def name_param_def has_key_def)
  have h6: "[(''name'', unavailable_username)] = [] @ (''name'', unavailable_username) # []"
    by simp
  have h7: "\<not> has_key (arguments \<lparr>ba_signature = fsig sayHello, arguments = []\<rparr>) ''name''"
    by (simp add: has_key_def)
  have h8: "update_loop [] (arguments \<lparr>ba_signature = fsig sayHello, arguments = []\<rparr>) 0 = ([], 0, [])"
    by simp
  have h9: "call0 unavailable_username 0 = (Inl (Exception ''KeyError''), 1)"
    by (simp add: unavailable_username_def)
  then have h10: "\<not> callable unavailable_username \<or> (\<exists>e w2. call0 unavailable_username 0 = (Inl e, w2))"
    by simp
  have u: "update_loop [(''name'', unavailable_username)]
             (arguments \<lparr>ba_signature = fsig sayHello, arguments = []\<rparr>) 0 =
           ([(''name'', unavailable_username)], 1, [Call (ProviderCalled ''name'') []])"
    using h9 by (simp add: has_key_def)
  have cb: "call_bound sayHello
              (apply_defaults (\<lparr>ba_signature = fsig sayHello, arguments = []\<rparr>
                                 \<lparr>arguments := [(''name'', unavailable_username)]\<rparr>)) 1 =
            (Inr unavailable_username, 1,
             [Call (FuncCalled ''sayHello'' [unavailable_username] ([], False)) []])"
    by (simp add: has_key_def apply_defaults_def dict_of_pairs_def call_bound_def
        ba_args_def ba_kwargs_def call_defs bind_def sayHello_def name_param_def)
  have e: "fst (fst (SignatureDecorator_inner sayHello sayHello_deco2 [] [] 0)) = Inr unavailable_username"
    using dynamic_defaults_call[OF h1 h2 h5 u] cb by simp
  from dynamic_defaults_provider_failure[OF h1 h2 h3 h4 h5 h6 h7 h8 h10] h1 h3 h5 h7 h9 e u cb
  show ?thesis
    by simp
qed

subsection \<open>Writes of callbacks\<close>

lemma run_callbacks_append:
  "run_callbacks mk (xs @ ys) i ba w =
     (case run_callbacks mk xs i ba w of
        (Some e, b, w1, t1) \<Rightarrow> (Some e, b, w1, t1)
      | (None, b, w1, t1) \<Rightarrow>
          (case run_callbacks mk ys (i + length xs) b w1 of
             (r, b2, w2, t2) \<Rightarrow> (r, b2, w2, t1 @ t2)))"
proof (induction xs arbitrary: i ba w)
  case Nil
  then show ?case by (simp split: prod.splits)
next
  case (Cons c xs)
  show ?case
    by (simp add: Cons.IH split: prod.splits sum.splits option.splits)
qed

lemma run_callbacks_chain:
  assumes x: "run_callbacks mk xs i ba w = (None, b0, w0, t0)"
    and c: "c0 (mk b0) w0 = (Inr ba1, w1, sub0)"
  shows "run_callbacks mk (xs @ c0 # rest) i ba w =
     (case run_callbacks mk rest (Suc (i + length xs)) ba1 w1 of
        (r, b2, w2, t2) \<Rightarrow> (r, b2, w2, t0 @ Call (CallbackCalled (i + length xs) (mk b0)) sub0 # t2))"
  by (simp add: run_callbacks_append x c split: prod.splits)

lemma run_callbacks_head:
  "\<exists>r b2 w2 t2. run_callbacks mk (c1 # ys) i ba w =
     (r, b2, w2, Call (CallbackCalled i (mk ba)) (snd (snd (c1 (mk ba) w))) # t2)"
  by (auto split: prod.splits sum.splits)

lemma callbacks_chain_next:
  assumes x: "run_callbacks mk xs 0 ba w = (None, b0, w0, t0)"
    and c: "c0 (mk b0) w0 = (Inr ba1, w1, sub0)"
    and r: "run_callbacks mk (xs @ c0 # c1 # ys) 0 ba w = (res, b2, w2, tr)"
  shows "length xs + 1 < length tr \<and>
     tr ! (length xs + 1) = Call (CallbackCalled (length xs + 1) (mk ba1)) (snd (snd (c1 (mk ba1) w1)))"
proof -
  have l: "length t0 = length xs"
    using run_callbacks_length[OF x] .
  from run_callbacks_head[of mk c1 ys "Suc (length xs)" ba1 w1]
  obtain r' b' w' t' where h: "run_callbacks mk (c1 # ys) (Suc (length xs)) ba1 w1 =
      (r', b', w', Call (CallbackCalled (Suc (length xs)) (mk ba1)) (snd (snd (c1 (mk ba1) w1))) # t')"
    by blast
  have "run_callbacks mk (xs @ c0 # c1 # ys) 0 ba w =
     (case run_callbacks mk (c1 # ys) (Suc (0 + length xs)) ba1 w1 of
        (r, b2, w2, t2) \<Rightarrow> (r, b2, w2, t0 @ Call (CallbackCalled (0 + length xs) (mk b0)) sub0 # t2))"
    using x c by (rule run_callbacks_chain)
  with r h have "tr = t0 @ Call (CallbackCalled (length xs) (mk b0)) sub0 #
      Call (CallbackCalled (Suc (length xs)) (mk ba1)) (snd (snd (c1 (mk ba1) w1))) # t'"
    by (simp del: run_callbacks.simps)
  then show ?thesis
    using l by (simp add: nth_append)
qed

lemma callbacks_chain_last:
  assumes x: "run_callbacks mk xs 0 ba w = (None, b0, w0, t0)"
    and c: "c0 (mk b0) w0 = (Inr ba1, w1, sub0)"
  shows "run_callbacks mk (xs @ [c0]) 0 ba w =
     (None, ba1, w1, t0 @ [Call (CallbackCalled (length xs) (mk b0)) sub0])"
proof -
  have "run_callbacks mk (xs @ c0 # []) 0 ba w =
     (case run_callbacks mk [] (Suc (0 + length xs)) ba1 w1 of
        (r, b2, w2, t2) \<Rightarrow> (r, b2, w2, t0 @ Call (CallbackCalled (0 + length xs) (mk b0)) sub0 # t2))"
    using x c by (rule run_callbacks_chain)
  then show ?thesis by simp
qed

lemma call_bound_converted:
  "ba_args ba = Inr a \<Longrightarrow> ba_kwargs ba = Inr k \<Longrightarrow>
     call_bound func ba w =
       (fst (py_call func a k w), snd (py_call func a k w), [Call (FuncCalled (fname func) a k) []])"
  by (simp add: call_bound_def split: prod.splits)

lemma wrapper_next_sees:
  assumes x: "run_callbacks mk xs 0 ba w = (None, b0, w0, t0)"
    and c: "c0 (mk b0) w0 = (Inr ba1, w1, sub0)"
    and r: "run_callbacks mk (xs @ c0 # rest) 0 ba w = (res, b2, w2, tr)"
  shows "next_sees mk xs rest ba1 w1 (tr @ t)"
proof (cases rest)
  case Nil
  then show ?thesis by (simp add: next_sees_def)
next
  case (Cons c1 ys)
  from callbacks_chain_next[OF x c r[unfolded Cons]] Cons show ?thesis
    by (simp add: next_sees_def nth_append)
qed

text \<open>
  C8.  Let the call bind, let the callbacks before position \<open>length xs\<close> have
  returned, leaving the bound arguments \<open>b0\<close> and the world \<open>w0\<close>, and let the
  callback at that position, invoked on them, return leaving \<open>ba1\<close> and \<open>w1\<close>.
  Then the next callback, if there is one, is invoked on \<open>ba1\<close> in \<open>w1\<close>; and
  if there is none, the target is called with \<^verbatim>\<open>*ba1.args, **ba1.kwargs\<close>: whenever
  these two conversions yield \<open>a\<close> and \<open>k\<close>, the outcome of the wrapper is the
  outcome of calling the target with \<open>a\<close> and \<open>k\<close> in \<open>w1\<close>, its value or its
  exception as it is.  This holds for the wrapper of \<^verbatim>\<open>signature_decorator_factory\<close>
  and for the wrapper of a \<^verbatim>\<open>SignatureDecorator\<close> instance, whose attribute
  \<^verbatim>\<open>boundarguments\<close> is \<open>ba1\<close> afterwards.
\<close>

theorem callback_writes_visible:
  "(bind (fsig func) args kw = Inr ba0 \<and> cbs = xs @ c0 # rest \<and>
    run_callbacks ArgBoundArguments xs 0 (if flag then apply_defaults ba0 else ba0) w = (None, b0, w0, t0) \<and>
    c0 (ArgBoundArguments b0) w0 = (Inr ba1, w1, sub0) \<longrightarrow>
      (case signature_decorator_factory cbs flag func args kw w of
         (res, w', tr) \<Rightarrow>
           next_sees ArgBoundArguments xs rest ba1 w1 tr \<and>
           (rest = [] \<longrightarrow>
              (\<forall>a k. ba_args ba1 = Inr a \<and> ba_kwargs ba1 = Inr k \<longrightarrow>
                 res = fst (py_call func a k w1) \<and> w' = snd (py_call func a k w1) \<and>
                 tr = t0 @ [Call (CallbackCalled (length xs) (ArgBoundArguments b0)) sub0,
                            Call (FuncCalled (fname func) a k) []])))) \<and>
   (sd_signature self = Some sig \<and> bind sig args kw = Inr bs0 \<and> sd_callbacks self = ys @ d0 # others \<and>
    run_callbacks (callback_arg self) ys 0 (if sd_apply_defaults self then apply_defaults bs0 else bs0) w
      = (None, bs, ws, ts) \<and>
    d0 (callback_arg self bs) ws = (Inr bs1, ws1, subs) \<longrightarrow>
      (case SignatureDecorator_inner func self args kw w of
         ((res, w', tr), self') \<Rightarrow>
           next_sees (callback_arg self) ys others bs1 ws1 tr \<and>
           (others = [] \<longrightarrow>
              self' = self\<lparr>boundarguments := Some bs1\<rparr> \<and>
              (\<forall>a k. ba_args bs1 = Inr a \<and> ba_kwargs bs1 = Inr k \<longrightarrow>
                 res = fst (py_call func a k ws1) \<and> w' = snd (py_call func a k ws1) \<and>
                 tr = ts @ [Call (CallbackCalled (length ys) (callback_arg self bs)) subs,
                            Call (FuncCalled (fname func) a k) []]))))"
proof (intro conjI impI)
  assume a: "bind (fsig func) args kw = Inr ba0 \<and> cbs = xs @ c0 # rest \<and>
    run_callbacks ArgBoundArguments xs 0 (if flag then apply_defaults ba0 else ba0) w = (None, b0, w0, t0) \<and>
    c0 (ArgBoundArguments b0) w0 = (Inr ba1, w1, sub0)"
  let ?ba = "if flag then apply_defaults ba0 else ba0"
  from a have b: "bind (fsig func) args kw = Inr ba0" and cbs: "cbs = xs @ c0 # rest"
    and x: "run_callbacks ArgBoundArguments xs 0 ?ba w = (None, b0, w0, t0)"
    and c: "c0 (ArgBoundArguments b0) w0 = (Inr ba1, w1, sub0)"
    by auto
  obtain e b2 w2 tr where r: "run_callbacks ArgBoundArguments (xs @ c0 # rest) 0 ?ba w = (e, b2, w2, tr)"
    by (metis prod_cases4)
  have ns: "next_sees ArgBoundArguments xs rest ba1 w1 (tr @ t)" for t
    using x c r by (rule wrapper_next_sees)
  show "case signature_decorator_factory cbs flag func args kw w of
         (res, w', tr) \<Rightarrow>
           next_sees ArgBoundArguments xs rest ba1 w1 tr \<and>
           (rest = [] \<longrightarrow>
              (\<forall>a k. ba_args ba1 = Inr a \<and> ba_kwargs ba1 = Inr k \<longrightarrow>
                 res = fst (py_call func a k w1) \<and> w' = snd (py_call func a k w1) \<and>
                 tr = t0 @ [Call (CallbackCalled (length xs) (ArgBoundArguments b0)) sub0,
                            Call (FuncCalled (fname func) a k) []]))"
  proof (cases rest)
    case Nil
    have "run_callbacks ArgBoundArguments (xs @ [c0]) 0 ?ba w =
        (None, ba1, w1, t0 @ [Call (CallbackCalled (length xs) (ArgBoundArguments b0)) sub0])"
      using x c by (rule callbacks_chain_last)
    with Nil
    have r': "run_callbacks ArgBoundArguments cbs 0 ?ba w =
        (None, ba1, w1, t0 @ [Call (CallbackCalled (length xs) (ArgBoundArguments b0)) sub0])"
      by (simp add: cbs)
    show ?thesis
      using Nil call_bound_converted[of ba1 _ _ func w1]
      by (auto simp: signature_decorator_factory_def b r' next_sees_def Let_def split: prod.splits)
  next
    case (Cons c1 ys)
    show ?thesis
      using ns[of "[]"] ns Cons r
      by (auto simp: signature_decorator_factory_def b cbs Let_def split: prod.splits option.splits)
  qed
next
  assume a: "sd_signature self = Some sig \<and> bind sig args kw = Inr bs0 \<and> sd_callbacks self = ys @ d0 # others \<and>
    run_callbacks (callback_arg self) ys 0 (if sd_apply_defaults self then apply_defaults bs0 else bs0) w
      = (None, bs, ws, ts) \<and>
    d0 (callback_arg self bs) ws = (Inr bs1, ws1, subs)"
  let ?ba = "if sd_apply_defaults self then apply_defaults bs0 else bs0"
  from a have s: "sd_signature self = Some sig" and b: "bind sig args kw = Inr bs0"
    and cbs: "sd_callbacks self = ys @ d0 # others"
    and x: "run_callbacks (callback_arg self) ys 0 ?ba w = (None, bs, ws, ts)"
    and c: "d0 (callback_arg self bs) ws = (Inr bs1, ws1, subs)"
    by auto
  obtain e b2 w2 tr where r: "run_callbacks (callback_arg self) (ys @ d0 # others) 0 ?ba w = (e, b2, w2, tr)"
    by (metis prod_cases4)
  have ns: "next_sees (callback_arg self) ys others bs1 ws1 (tr @ t)" for t
    using x c r by (rule wrapper_next_sees)
  show "case SignatureDecorator_inner func self args kw w of
         ((res, w', tr), self') \<Rightarrow>
           next_sees (callback_arg self) ys others bs1 ws1 tr \<and>
           (others = [] \<longrightarrow>
              self' = self\<lparr>boundarguments := Some bs1\<rparr> \<and>
              (\<forall>a k. ba_args bs1 = Inr a \<and> ba_kwargs bs1 = Inr k \<longrightarrow>
                 res = fst (py_call func a k ws1) \<and> w' = snd (py_call func a k ws1) \<and>
                 tr = ts @ [Call (CallbackCalled (length ys) (callback_arg self bs)) subs,
                            Call (FuncCalled (fname func) a k) []]))"
  proof (cases others)
    case Nil
    have "run_callbacks (callback_arg self) (ys @ [d0]) 0 ?ba w =
        (None, bs1, ws1, ts @ [Call (CallbackCalled (length ys) (callback_arg self bs)) subs])"
      using x c by (rule callbacks_chain_last)
    with Nil
    have r': "run_callbacks (callback_arg self) (sd_callbacks self) 0 ?ba w =
        (None, bs1, ws1, ts @ [Call (CallbackCalled (length ys) (callback_arg self bs)) subs])"
      by (simp add: cbs)
    show ?thesis
      using Nil call_bound_converted[of bs1 _ _ func ws1]
      by (auto simp: SignatureDecorator_inner_def s b r' next_sees_def Let_def split: prod.splits)
  next
    case (Cons c1 zs)
    show ?thesis
      using ns[of "[]"] ns Cons r
      by (auto simp: SignatureDecorator_inner_def s b cbs Let_def split: prod.splits option.splits)
  qed
qed

theorem callback_writes_visible_witness:
  "bind (fsig f_ab) [VInt 1] [] = Inr f_ab_bound \<and>
   set_b (ArgBoundArguments f_ab_bound) 0 = (Inr f_ab_bound99, 0, []) \<and>
   see_b (ArgBoundArguments f_ab_bound99) 0 = (Inr f_ab_bound99, 99, []) \<and>
   ba_args f_ab_bound99 = Inr [VInt 1, VInt 99] \<and> ba_kwargs f_ab_bound99 = Inr ([], False) \<and>
   fst (signature_decorator_factory [set_b, see_b] False f_ab [VInt 1] [] 0) = Inr (VInt 100) \<and>
   fst (snd (signature_decorator_factory [set_b, see_b] False f_ab [VInt 1] [] 0)) = 99 \<and>
   fst (fst (SignatureDecorator_inner f_ab f_ab_sig [VInt 1] [] 0)) = Inr (VInt 100) \<and>
   fst (snd (fst (SignatureDecorator_inner f_ab f_ab_sig [VInt 1] [] 0))) = 99"
proof -
  have b: "bind (fsig f_ab) [VInt 1] [] = Inr f_ab_bound"
    by (simp add: bind_def f_ab_def f_ab_bound_def has_key_def)
  have c1: "set_b (ArgBoundArguments f_ab_bound) 0 = (Inr f_ab_bound99, 0, [])"
    by (simp add: set_b_def f_ab_bound_def f_ab_bound99_def has_key_def)
  have c2: "see_b (ArgBoundArguments f_ab_bound99) 0 = (Inr f_ab_bound99, 99, [])"
    by (simp add: see_b_def f_ab_bound99_def)
  have x1: "run_callbacks ArgBoundArguments [set_b] 0 (if False then apply_defaults f_ab_bound else f_ab_bound) 0
      = (None, f_ab_bound99, 0, [Call (CallbackCalled 0 (ArgBoundArguments f_ab_bound)) []])"
    by (simp add: c1)
  have a: "ba_args f_ab_bound99 = Inr [VInt 1, VInt 99]"
    by (simp add: ba_args_def f_ab_bound99_def f_ab_def)
  have k: "ba_kwargs f_ab_bound99 = Inr ([], False)"
    by (simp add: ba_kwargs_def f_ab_bound99_def f_ab_def has_key_def)
  have p: "py_call f_ab [VInt 1, VInt 99] ([], False) 99 = (Inr (VInt 100), 99)"
    by (simp add: call_defs bind_def f_ab_def has_key_def apply_defaults_def dict_of_pairs_def)
  have s: "sd_signature f_ab_sig = Some (fsig f_ab)" "sd_callbacks f_ab_sig = [set_b] @ see_b # []"
    "sd_apply_defaults f_ab_sig = False" "sd_apply_self f_ab_sig = True"
    by (simp_all add: f_ab_sig_def SignatureDecorator_init_def)
  have d1: "set_b (callback_arg f_ab_sig f_ab_bound) 0 = (Inr f_ab_bound99, 0, [])"
    by (simp add: callback_arg_def s view_def set_b_def f_ab_bound_def f_ab_bound99_def has_key_def)
  have d2: "see_b (callback_arg f_ab_sig f_ab_bound99) 0 = (Inr f_ab_bound99, 99, [])"
    by (simp add: callback_arg_def s view_def see_b_def f_ab_bound99_def)
  have y1: "run_callbacks (callback_arg f_ab_sig) [set_b] 0
        (if sd_apply_defaults f_ab_sig then apply_defaults f_ab_bound else f_ab_bound) 0
      = (None, f_ab_bound99, 0, [Call (CallbackCalled 0 (callback_arg f_ab_sig f_ab_bound)) []])"
    by (simp add: d1 s)
  have e: "[set_b, see_b] = [set_b] @ see_b # []"
    by simp
  note T = callback_writes_visible[where func=f_ab and args="[VInt 1]" and kw="[]" and ?ba0.0=f_ab_bound
      and cbs="[set_b, see_b]" and xs="[set_b]" and ?c0.0=see_b and rest="[]" and flag=False
      and w=0 and ?b0.0=f_ab_bound99 and ?w0.0=0
      and ?t0.0="[Call (CallbackCalled 0 (ArgBoundArguments f_ab_bound)) []]"
      and ?ba1.0=f_ab_bound99 and ?w1.0=99 and ?sub0.0="[]"
      and self=f_ab_sig and sig="fsig f_ab" and ?bs0.0=f_ab_bound and ys="[set_b]" and ?d0.0=see_b
      and others="[]" and bs=f_ab_bound99 and ws=0
      and ts="[Call (CallbackCalled 0 (callback_arg f_ab_sig f_ab_bound)) []]"
      and ?bs1.0=f_ab_bound99 and ?ws1.0=99 and subs="[]"]
  obtain res w' tr where R:
    "signature_decorator_factory [set_b, see_b] False f_ab [VInt 1] [] 0 = (res, w', tr)"
    by (metis prod_cases3)
  have H1: "bind (fsig f_ab) [VInt 1] [] = Inr f_ab_bound \<and> [set_b, see_b] = [set_b] @ see_b # [] \<and>
    run_callbacks ArgBoundArguments [set_b] 0 (if False then apply_defaults f_ab_bound else f_ab_bound) 0
      = (None, f_ab_bound99, 0, [Call (CallbackCalled 0 (ArgBoundArguments f_ab_bound)) []]) \<and>
    see_b (ArgBoundArguments f_ab_bound99) 0 = (Inr f_ab_bound99, 99, [])"
    using b e x1 c2 by blast
  from T[THEN conjunct1, rule_format, OF H1] R
  have "\<forall>a k. ba_args f_ab_bound99 = Inr a \<and> ba_kwargs f_ab_bound99 = Inr k \<longrightarrow>
           res = fst (py_call f_ab a k 99) \<and> w' = snd (py_call f_ab a k 99)"
    by simp
  then have "res = fst (py_call f_ab [VInt 1, VInt 99] ([], False) 99) \<and>
      w' = snd (py_call f_ab [VInt 1, VInt 99] ([], False) 99)"
    using a k by blast
  with p have r1: "res = Inr (VInt 100)" "w' = 99"
    by simp_all
  obtain res2 w2 tr2 self2 where R2:
    "SignatureDecorator_inner f_ab f_ab_sig [VInt 1] [] 0 = ((res2, w2, tr2), self2)"
    by (cases "SignatureDecorator_inner f_ab f_ab_sig [VInt 1] [] 0") auto
  have H2: "sd_signature f_ab_sig = Some (fsig f_ab) \<and> bind (fsig f_ab) [VInt 1] [] = Inr f_ab_bound \<and>
    sd_callbacks f_ab_sig = [set_b] @ see_b # [] \<and>
    run_callbacks (callback_arg f_ab_sig) [set_b] 0
        (if sd_apply_defaults f_ab_sig then apply_defaults f_ab_bound else f_ab_bound) 0
      = (None, f_ab_bound99, 0, [Call (CallbackCalled 0 (callback_arg f_ab_sig f_ab_bound)) []]) \<and>
    see_b (callback_arg f_ab_sig f_ab_bound99) 0 = (Inr f_ab_bound99, 99, [])"
    using s(1,2) b y1 d2 by blast
  from T[THEN conjunct2, rule_format, OF H2] R2
  have "\<forall>a k. ba_args f_ab_bound99 = Inr a \<and> ba_kwargs f_ab_bound99 = Inr k \<longrightarrow>
           res2 = fst (py_call f_ab a k 99) \<and> w2 = snd (py_call f_ab a k 99)"
    by simp
  then have "res2 = fst (py_call f_ab [VInt 1, VInt 99] ([], False) 99) \<and>
      w2 = snd (py_call f_ab [VInt 1, VInt 99] ([], False) 99)"
    using a k by blast
  with p have r2: "res2 = Inr (VInt 100)" "w2 = 99"
    by simp_all
  from b c1 c2 a k R r1 R2 r2 show ?thesis
    by simp
qed


subsection \<open>Binding a call: \<^verbatim>\<open>Signature.bind\<close>, \<^verbatim>\<open>args\<close> and \<^verbatim>\<open>kwargs\<close>\<close>

lemma nonvar_names_Nil [simp]: "nonvar_names [] = {}"
  by (simp add: nonvar_names_def)

lemma nonvar_names_Cons:
  "nonvar_names (p # ps) =
     (if pkind p \<noteq> VAR_POSITIONAL \<and> pkind p \<noteq> VAR_KEYWORD then insert (pname p) (nonvar_names ps)
      else nonvar_names ps)"
  by (auto simp: nonvar_names_def)

lemma bind_bind_from: "bind sig args kwargs = bind_from sig sig args kwargs []"
  by (simp add: bind_def bind_from_def bind_finish_def split: sum.splits prod.splits)

lemma delete_filter: "AList.delete k al = filter (\<lambda>kv. fst kv \<noteq> k) al"
  by (induction al) auto

lemma map_of_delete: "map_of (AList.delete k al) k' = (if k' = k then None else map_of al k')"
  by (simp add: delete_conv')

lemma bind_keywords_cong:
  "map_of K = map_of kw1 \<Longrightarrow>
     bind_keywords ps K acc kp =
       (case bind_keywords ps kw1 acc kp of
          Inl e \<Rightarrow> Inl e
        | Inr (a, l, k) \<Rightarrow> Inr (a, filter (\<lambda>kv. fst kv \<notin> nonvar_names ps) K, k))"
proof (induction ps arbitrary: K kw1 acc kp)
  case Nil
  then show ?case by simp
next
  case (Cons p ps)
  have m: "map_of K (pname p) = map_of kw1 (pname p)"
    using Cons.prems by simp
  show ?case
  proof (cases "pkind p = VAR_KEYWORD \<or> pkind p = VAR_POSITIONAL")
    case True
    then have nv: "nonvar_names (p # ps) = nonvar_names ps"
      by (auto simp: nonvar_names_Cons)
    from True show ?thesis
      unfolding nv using Cons.IH[OF Cons.prems] by auto
  next
    case False
    show ?thesis
    proof (cases "map_of kw1 (pname p)")
      case None
      with m have "map_of K (pname p) = None"
        by (simp only:)
      then have "pname p \<notin> fst ` set K"
        by (simp only: map_of_eq_None_iff not_False_eq_True)
      then have "\<forall>kv \<in> set K. fst kv \<noteq> pname p"
        by (metis imageI)
      then have f: "filter (\<lambda>kv. fst kv \<notin> nonvar_names (p # ps)) K
          = filter (\<lambda>kv. fst kv \<notin> nonvar_names ps) K"
        by (intro filter_cong) (auto simp: nonvar_names_Cons)
      show ?thesis
        using False None m Cons.IH[OF Cons.prems] f by (auto split: sum.splits)
    next
      case (Some v)
      have d: "map_of (AList.delete (pname p) K) = map_of (AList.delete (pname p) kw1)"
        using Cons.prems by (auto simp: map_of_delete)
      have f: "filter (\<lambda>kv. fst kv \<notin> nonvar_names (p # ps)) K
          = filter (\<lambda>kv. fst kv \<notin> nonvar_names ps) (AList.delete (pname p) K)"
        using False by (auto simp: nonvar_names_Cons delete_filter intro: filter_cong)
      show ?thesis
        using False Some m Cons.IH[OF d] f by (auto split: sum.splits)
    qed
  qed
qed

lemma bind_keywords_left:
  "bind_keywords ps kw1 acc kp = Inr (a, l, k) \<Longrightarrow> l = filter (\<lambda>kv. fst kv \<notin> nonvar_names ps) kw1"
  using bind_keywords_cong[of kw1 kw1 ps acc kp] by simp

lemma bind_keywords_map:
  "bind_keywords ps kw1 acc kp = Inr (acc2, l, k) \<Longrightarrow> distinct (map pname ps) \<Longrightarrow>
     map_of acc2 n =
       (if n \<in> nonvar_names ps \<and> map_of kw1 n \<noteq> None then map_of kw1 n else map_of acc n)"
proof (induction ps arbitrary: kw1 acc kp)
  case Nil
  then show ?case by simp
next
  case (Cons p ps)
  from Cons.prems(2) have d: "distinct (map pname ps)" and np: "pname p \<notin> pname ` set ps" by auto
  then have nn: "pname p \<notin> nonvar_names ps" by (auto simp: nonvar_names_def)
  show ?case
  proof (cases "pkind p = VAR_KEYWORD \<or> pkind p = VAR_POSITIONAL")
    case True
    then show ?thesis
      using Cons.IH[OF _ d] Cons.prems(1) by (auto simp: nonvar_names_Cons split: if_splits)
  next
    case False
    show ?thesis
    proof (cases "map_of kw1 (pname p)")
      case None
      with False Cons.prems(1) have "bind_keywords ps kw1 acc kp = Inr (acc2, l, k)"
        by (auto split: if_splits)
      from Cons.IH[OF this d] None False show ?thesis
        by (auto simp: nonvar_names_Cons)
    next
      case (Some v)
      with False Cons.prems(1) have
        "bind_keywords ps (AList.delete (pname p) kw1) (AList.update (pname p) v acc) kp = Inr (acc2, l, k)"
        by (auto split: if_splits)
      from Cons.IH[OF this d] Some False nn show ?thesis
        by (auto simp: nonvar_names_Cons map_of_delete update_conv')
    qed
  qed
qed

lemma bind_keywords_ok:
  "bind_keywords ps kw1 acc kp = Inr (acc2, l, k) \<Longrightarrow> distinct (map pname ps) \<Longrightarrow> p \<in> set ps \<Longrightarrow>
     pkind p \<noteq> VAR_POSITIONAL \<Longrightarrow> pkind p \<noteq> VAR_KEYWORD \<Longrightarrow>
     (map_of kw1 (pname p) = None \<longrightarrow> pdefault p \<noteq> None) \<and>
     (map_of kw1 (pname p) \<noteq> None \<longrightarrow> pkind p \<noteq> POSITIONAL_ONLY)"
proof (induction ps arbitrary: kw1 acc kp)
  case Nil
  then show ?case by simp
next
  case (Cons q ps)
  from Cons.prems(2) have d: "distinct (map pname ps)" and np: "pname q \<notin> pname ` set ps" by auto
  show ?case
  proof (cases "pkind q = VAR_KEYWORD \<or> pkind q = VAR_POSITIONAL")
    case True
    with Cons.prems have "p \<in> set ps" by auto
    with True Cons.IH[OF _ d this Cons.prems(4,5)] Cons.prems(1) show ?thesis
      by (auto split: if_splits)
  next
    case False
    show ?thesis
    proof (cases "map_of kw1 (pname q)")
      case None
      with False Cons.prems(1) have r: "bind_keywords ps kw1 acc kp = Inr (acc2, l, k)"
        and dq: "pdefault q \<noteq> None"
        by (auto split: if_splits)
      show ?thesis
      proof (cases "p = q")
        case True
        with None dq show ?thesis by simp
      next
        case False
        with Cons.prems(3) have "p \<in> set ps" by simp
        from Cons.IH[OF r d this Cons.prems(4,5)] show ?thesis .
      qed
    next
      case (Some v)
      with False Cons.prems(1) have
        r: "bind_keywords ps (AList.delete (pname q) kw1) (AList.update (pname q) v acc) kp = Inr (acc2, l, k)"
        and kq: "pkind q \<noteq> POSITIONAL_ONLY"
        by (auto split: if_splits)
      show ?thesis
      proof (cases "p = q")
        case True
        with Some kq show ?thesis by simp
      next
        case False
        with Cons.prems(3) have pin: "p \<in> set ps" by simp
        then have "pname p \<noteq> pname q" using np by (metis imageI)
        with Cons.IH[OF r d pin Cons.prems(4,5)] show ?thesis
          by (simp add: map_of_delete)
      qed
    qed
  qed
qed

lemma bind_keywords_param:
  "bind_keywords ps kw1 acc kp = Inr (acc2, l, k) \<Longrightarrow>
     k = (case filter (\<lambda>p. pkind p = VAR_KEYWORD) ps of [] \<Rightarrow> kp | vs \<Rightarrow> Some (last vs))"
proof (induction ps arbitrary: kw1 acc kp)
  case Nil
  then show ?case by simp
next
  case (Cons p ps)
  show ?case
  proof (cases "pkind p = VAR_KEYWORD")
    case True
    with Cons.prems have "bind_keywords ps kw1 acc (Some p) = Inr (acc2, l, k)"
      by simp
    from Cons.IH[OF this] True show ?thesis
      by (auto split: list.splits)
  next
    case False
    with Cons.prems obtain kw' acc' where "bind_keywords ps kw' acc' kp = Inr (acc2, l, k)"
      by (auto split: if_splits option.splits)
    from Cons.IH[OF this] False show ?thesis
      by simp
  qed
qed












lemma bind_finish_arguments:
  assumes "bind_finish sig (acc2, left, kp) = Inr ba"
  shows "ba_signature ba = sig"
    and "left = [] \<Longrightarrow> arguments ba = acc2"
    and "left \<noteq> [] \<Longrightarrow> \<exists>vk. kp = Some vk \<and> arguments ba = AList.update (pname vk) (VDict left) acc2"
  using assms by (auto simp: bind_finish_def split: list.splits option.splits)

lemma bind_keywords_param_in:
  assumes "bind_keywords ps kw1 acc None = Inr (acc2, l, Some vk)"
  shows "vk \<in> set ps \<and> pkind vk = VAR_KEYWORD"
proof -
  from bind_keywords_param[OF assms]
  have "Some vk = (case filter (\<lambda>p. pkind p = VAR_KEYWORD) ps of [] \<Rightarrow> None | vs \<Rightarrow> Some (last vs))"
    by simp
  then have ne: "filter (\<lambda>p. pkind p = VAR_KEYWORD) ps \<noteq> []"
    and l: "vk = last (filter (\<lambda>p. pkind p = VAR_KEYWORD) ps)"
    by (auto split: list.splits)
  from last_in_set[OF ne] l have "vk \<in> set (filter (\<lambda>p. pkind p = VAR_KEYWORD) ps)"
    by simp
  then show ?thesis by simp
qed
















lemma bind_positional_mono:
  "bind_positional ps as kw acc = Inr (acc1, rest) \<Longrightarrow> has_key acc n \<Longrightarrow> has_key acc1 n"
proof (induction ps as kw acc rule: bind_positional.induct)
  case (1 kwargs argmap)
  then show ?case by simp
next
  case (2 param parameters kwargs argmap)
  then show ?case by (auto split: if_splits)
next
  case (3 arg_val arg_vals kwargs argmap)
  then show ?case by simp
next
  case (4 param parameters arg_val arg_vals kwargs argmap)
  show ?case
  proof (cases "pkind param = VAR_POSITIONAL")
    case True
    with 4(2,3) show ?thesis
      by (auto split: if_splits simp: has_key_update)
  next
    case False
    with 4(2) have c: "\<not> (pkind param = VAR_KEYWORD \<or> pkind param = KEYWORD_ONLY)"
      "\<not> (has_key kwargs (pname param) \<and> pkind param \<noteq> POSITIONAL_ONLY)"
      and r: "bind_positional parameters arg_vals kwargs
           (AList.update (pname param) arg_val argmap) = Inr (acc1, rest)"
      by (auto split: if_splits)
    have "has_key (AList.update (pname param) arg_val argmap) n"
      using 4(3) by (simp add: has_key_update)
    from 4(1)[OF c(1) False c(2) r this] show ?thesis .
  qed
qed

lemma bind_positional_split:
  "bind_positional ps as kw acc = Inr (acc1, rest) \<Longrightarrow>
     \<exists>pre. ps = pre @ rest \<and>
       (\<forall>q \<in> set pre. pkind q \<noteq> KEYWORD_ONLY \<and> pkind q \<noteq> VAR_KEYWORD \<and>
           (pkind q = POSITIONAL_OR_KEYWORD \<longrightarrow> \<not> has_key kw (pname q)) \<and>
           (pkind q \<noteq> VAR_POSITIONAL \<longrightarrow> has_key acc1 (pname q))) \<and>
       fst ` set acc1 \<subseteq> fst ` set acc \<union> pname ` set (take (length as) pre)"
proof (induction ps as kw acc rule: bind_positional.induct)
  case (1 kwargs argmap)
  then show ?case by simp
next
  case (2 param parameters kwargs argmap)
  show ?case
  proof (cases "pkind param = VAR_POSITIONAL")
    case True
    with 2 have "acc1 = argmap" "rest = parameters" by auto
    with True show ?thesis by (intro exI[of _ "[param]"]) auto
  next
    case False
    with 2 have "acc1 = argmap" "rest = param # parameters" by (auto split: if_splits)
    then show ?thesis by (intro exI[of _ "[]"]) auto
  qed
next
  case (3 arg_val arg_vals kwargs argmap)
  then show ?case by simp
next
  case (4 param parameters arg_val arg_vals kwargs argmap)
  show ?case
  proof (cases "pkind param = VAR_POSITIONAL")
    case True
    with 4(2) have "acc1 = AList.update (pname param) (VTuple (arg_val # arg_vals)) argmap"
      "rest = parameters"
      by (auto split: if_splits)
    with True show ?thesis
      by (intro exI[of _ "[param]"]) (auto simp: dom_update)
  next
    case False
    with 4(2) have c: "\<not> (pkind param = VAR_KEYWORD \<or> pkind param = KEYWORD_ONLY)"
      "\<not> (has_key kwargs (pname param) \<and> pkind param \<noteq> POSITIONAL_ONLY)"
      and r: "bind_positional parameters arg_vals kwargs
           (AList.update (pname param) arg_val argmap) = Inr (acc1, rest)"
      by (auto split: if_splits)
    from 4(1)[OF c(1) False c(2) r] obtain pre where
      p: "parameters = pre @ rest" and
      q: "\<forall>q \<in> set pre. pkind q \<noteq> KEYWORD_ONLY \<and> pkind q \<noteq> VAR_KEYWORD \<and>
           (pkind q = POSITIONAL_OR_KEYWORD \<longrightarrow> \<not> has_key kwargs (pname q)) \<and>
           (pkind q \<noteq> VAR_POSITIONAL \<longrightarrow> has_key acc1 (pname q))" and
      k: "fst ` set acc1 \<subseteq> fst ` set (AList.update (pname param) arg_val argmap) \<union>
            pname ` set (take (length arg_vals) pre)"
      by blast
    have h: "has_key acc1 (pname param)"
      by (rule bind_positional_mono[OF r]) (simp add: has_key_update)
    have "param # parameters = (param # pre) @ rest"
      using p by simp
    moreover have "\<forall>q \<in> set (param # pre). pkind q \<noteq> KEYWORD_ONLY \<and> pkind q \<noteq> VAR_KEYWORD \<and>
           (pkind q = POSITIONAL_OR_KEYWORD \<longrightarrow> \<not> has_key kwargs (pname q)) \<and>
           (pkind q \<noteq> VAR_POSITIONAL \<longrightarrow> has_key acc1 (pname q))"
      using q c h by auto
    moreover have "fst ` set acc1 \<subseteq> fst ` set argmap \<union>
        pname ` set (take (length (arg_val # arg_vals)) (param # pre))"
      using k by (auto simp: dom_update)
    ultimately show ?thesis by blast
  qed
qed

lemma bind_parts:
  assumes "bind sig args kw = Inr ba"
  obtains pre rest acc1 acc2 left kp where
    "sig = pre @ rest"
    "\<forall>q \<in> set pre. pkind q \<noteq> KEYWORD_ONLY \<and> pkind q \<noteq> VAR_KEYWORD \<and>
           (pkind q = POSITIONAL_OR_KEYWORD \<longrightarrow> \<not> has_key kw (pname q)) \<and>
           (pkind q \<noteq> VAR_POSITIONAL \<longrightarrow> has_key acc1 (pname q))"
    "fst ` set acc1 \<subseteq> pname ` set (take (length args) pre)"
    "bind_keywords rest kw acc1 None = Inr (acc2, left, kp)"
    "bind_finish sig (acc2, left, kp) = Inr ba"
proof -
  from assms obtain acc1 rest acc2 left kp where
    p: "bind_positional sig args kw [] = Inr (acc1, rest)" and
    k: "bind_keywords rest kw acc1 None = Inr (acc2, left, kp)" and
    f: "bind_finish sig (acc2, left, kp) = Inr ba"
    by (auto simp: bind_bind_from bind_from_def split: sum.splits prod.splits)
  from bind_positional_split[OF p] obtain pre where
    "sig = pre @ rest"
    "\<forall>q \<in> set pre. pkind q \<noteq> KEYWORD_ONLY \<and> pkind q \<noteq> VAR_KEYWORD \<and>
           (pkind q = POSITIONAL_OR_KEYWORD \<longrightarrow> \<not> has_key kw (pname q)) \<and>
           (pkind q \<noteq> VAR_POSITIONAL \<longrightarrow> has_key acc1 (pname q))"
    "fst ` set acc1 \<subseteq> pname ` set (take (length args) pre)"
    by auto
  with k f that show ?thesis by blast
qed

lemma same_name:
  "distinct (map pname sig) \<Longrightarrow> p \<in> set sig \<Longrightarrow> q \<in> set sig \<Longrightarrow> pname q = pname p \<Longrightarrow> q = p"
  by (metis distinct_map inj_onD)

lemma bind_finish_has_key:
  assumes "bind_finish sig (acc2, left, kp) = Inr ba"
  shows "has_key (arguments ba) n \<longleftrightarrow>
     has_key acc2 n \<or> (left \<noteq> [] \<and> (\<exists>vk. kp = Some vk \<and> n = pname vk))"
proof (cases "left = []")
  case True
  with bind_finish_arguments(2)[OF assms] show ?thesis by simp
next
  case False
  from bind_finish_arguments(3)[OF assms False] False show ?thesis
    by (auto simp: has_key_update)
qed

lemma bound_is_supplied:
  assumes b: "bind sig args kw = Inr ba"
    and dn: "distinct (map pname sig)"
    and p: "p \<in> set sig"
    and h: "has_key (arguments ba) (pname p)"
  shows "supplied sig args kw p"
proof -
  let ?n = "pname p"
  from b obtain pre rest acc1 acc2 left kp where
    sig: "sig = pre @ rest" and
    pre: "\<forall>q \<in> set pre. pkind q \<noteq> KEYWORD_ONLY \<and> pkind q \<noteq> VAR_KEYWORD \<and>
           (pkind q = POSITIONAL_OR_KEYWORD \<longrightarrow> \<not> has_key kw (pname q)) \<and>
           (pkind q \<noteq> VAR_POSITIONAL \<longrightarrow> has_key acc1 (pname q))" and
    k1: "fst ` set acc1 \<subseteq> pname ` set (take (length args) pre)" and
    k: "bind_keywords rest kw acc1 None = Inr (acc2, left, kp)" and
    f: "bind_finish sig (acc2, left, kp) = Inr ba"
    by (rule bind_parts)
  from dn sig have dr: "distinct (map pname rest)" by simp
  have m2: "map_of acc2 ?n =
      (if ?n \<in> nonvar_names rest \<and> map_of kw ?n \<noteq> None then map_of kw ?n else map_of acc1 ?n)"
    using bind_keywords_map[OF k dr, of ?n] .
  from h bind_finish_has_key[OF f, of ?n]
  consider (a) "has_key acc1 ?n" | (b) "?n \<in> nonvar_names rest" "has_key kw ?n"
    | (c) vk where "left \<noteq> []" "kp = Some vk" "?n = pname vk"
    using m2 by (auto simp: has_key_def split: if_splits)
  then show ?thesis
  proof cases
    case a
    with k1 obtain q where q: "q \<in> set (take (length args) pre)" "pname q = ?n"
      by (auto simp: has_key_iff)
    then have qp: "q \<in> set pre" by (meson in_set_takeD)
    with same_name[OF dn p _ q(2)] sig have "q = p" by simp
    with q(1) have "p \<in> set (take (length args) sig)"
      using sig by (auto simp: take_append)
    then have "pname p \<in> set (map pname (take (length args) sig))" by simp
    moreover from pre qp \<open>q = p\<close> have "pkind p \<noteq> KEYWORD_ONLY" "pkind p \<noteq> VAR_KEYWORD" by auto
    ultimately show ?thesis
      by (cases "pkind p") (auto simp: supplied_def)
  next
    case b
    from b(1) obtain q where q: "q \<in> set rest" "pname q = ?n"
      "pkind q \<noteq> VAR_POSITIONAL" "pkind q \<noteq> VAR_KEYWORD"
      by (auto simp: nonvar_names_def)
    with same_name[OF dn p _ q(2)] sig have qp: "q = p" by simp
    from bind_keywords_ok[OF k dr q(1,3,4)] b(2) q(2) have "pkind q \<noteq> POSITIONAL_ONLY"
      by (simp add: has_key_def)
    with q qp b(2) show ?thesis
      by (cases "pkind p") (auto simp: supplied_def)
  next
    case c
    from bind_keywords_param_in[OF k[unfolded c(2)]] have vk: "vk \<in> set rest" "pkind vk = VAR_KEYWORD"
      by auto
    with same_name[OF dn p _ c(3)[symmetric]] sig have vp: "vk = p" by simp
    from bind_keywords_left[OF k] c(1) obtain kv where
      kv: "kv \<in> set kw" "fst kv \<notin> nonvar_names rest"
      by (metis (mono_tags, lifting) filter_False)
    have "fst kv \<notin> set (map pname (filter (\<lambda>q. pkind q = POSITIONAL_OR_KEYWORD \<or> pkind q = KEYWORD_ONLY) sig))"
    proof
      assume "fst kv \<in> set (map pname (filter (\<lambda>q. pkind q = POSITIONAL_OR_KEYWORD \<or> pkind q = KEYWORD_ONLY) sig))"
      then obtain q where q: "q \<in> set sig" "pkind q = POSITIONAL_OR_KEYWORD \<or> pkind q = KEYWORD_ONLY"
        "pname q = fst kv"
        by auto
      show False
      proof (cases "q \<in> set pre")
        case True
        with pre q(2) have "\<not> has_key kw (pname q)" by auto
        moreover have "has_key kw (fst kv)" using kv(1) by (simp add: has_key_iff)
        ultimately show False using q(3) by simp
      next
        case False
        with q(1) sig have "q \<in> set rest" by auto
        with q(2) have "pname q \<in> nonvar_names rest" by (auto simp: nonvar_names_def)
        with kv(2) q(3) show False by simp
      qed
    qed
    with kv(1) vk vp show ?thesis
      by (auto simp: supplied_def)
  qed
qed









lemma first_callback_sees:
  assumes "run_callbacks mk (c # cbs) 0 ba w = (r, b, w', tr)"
  shows "\<exists>sub rest. tr = Call (CallbackCalled 0 (mk ba)) sub # rest"
  using assms by (auto split: prod.splits sum.splits)

lemma unsupplied_arguments:
  assumes wf: "wf_signature sig" and b: "bind sig args kw = Inr ba0"
    and p: "p \<in> set sig" and ns: "\<not> supplied sig args kw p"
  shows "map_of (arguments ba0) (pname p) = None"
    and "pdefault p = Some d \<Longrightarrow> map_of (arguments (apply_defaults ba0)) (pname p) = Some d"
proof -
  note dn = wf_signature_distinct[OF wf]
  have "\<not> has_key (arguments ba0) (pname p)"
    using bound_is_supplied[OF b dn p] ns by blast
  then show n: "map_of (arguments ba0) (pname p) = None"
    by (simp add: has_key_def)
  have s: "ba_signature ba0 = sig" using bind_signature[OF b] .
  assume "pdefault p = Some d"
  from new_arguments_default[OF p dn n this] show
    "map_of (arguments (apply_defaults ba0)) (pname p) = Some d"
    using apply_defaults_arguments[of ba0] s dn by simp
qed

lemma wf_f_ab: "wf_signature (fsig f_ab)"
  by (simp add: wf_signature_def f_ab_def)

subsection \<open>The interpreter's binding of a call\<close>


lemma has_key_Nil [simp]: "\<not> has_key [] n"
  by (simp add: has_key_def)





























subsection \<open>Filling the declared defaults\<close>

text \<open>
  C7.  Let a call bind against the signature of the target, and let \<open>p\<close> be a
  parameter that the caller did not supply.  Then the first thing the wrapper
  invokes is the first callback, and in the bound arguments this callback
  receives: with the flag \<^verbatim>\<open>apply_defaults\<close> on, \<open>p\<close> is bound to its declared
  default whenever it has one; with the flag off, \<open>p\<close> is not bound.  This holds
  for the wrapper of \<^verbatim>\<open>signature_decorator_factory\<close> and for the wrapper of a
  \<^verbatim>\<open>SignatureDecorator\<close> instance that holds the signature of the target.
\<close>

theorem defaults_before_first_callback:
  "(wf_signature (fsig func) \<and> bind (fsig func) args kw = Inr ba0 \<and> p \<in> set (fsig func) \<and>
    \<not> supplied (fsig func) args kw p \<longrightarrow>
      (\<exists>a ba sub rest.
         snd (snd (signature_decorator_factory (c # cbs) flag func args kw w))
           = Call (CallbackCalled 0 a) sub # rest \<and>
         arg_boundarguments a = Some ba \<and>
         (if flag then (\<forall>d. pdefault p = Some d \<longrightarrow> map_of (arguments ba) (pname p) = Some d)
          else map_of (arguments ba) (pname p) = None))) \<and>
   (wf_signature (fsig func) \<and> sd_signature self = Some (fsig func) \<and> sd_callbacks self = c # cbs \<and>
    bind (fsig func) args kw = Inr ba0 \<and> p \<in> set (fsig func) \<and>
    \<not> supplied (fsig func) args kw p \<longrightarrow>
      (\<exists>a ba sub rest.
         snd (snd (fst (SignatureDecorator_inner func self args kw w)))
           = Call (CallbackCalled 0 a) sub # rest \<and>
         arg_boundarguments a = Some ba \<and>
         (if sd_apply_defaults self
          then (\<forall>d. pdefault p = Some d \<longrightarrow> map_of (arguments ba) (pname p) = Some d)
          else map_of (arguments ba) (pname p) = None)))"
proof (intro conjI impI)
  assume a: "wf_signature (fsig func) \<and> bind (fsig func) args kw = Inr ba0 \<and> p \<in> set (fsig func) \<and>
    \<not> supplied (fsig func) args kw p"
  then have wf: "wf_signature (fsig func)" and b: "bind (fsig func) args kw = Inr ba0"
    and p: "p \<in> set (fsig func)" and ns: "\<not> supplied (fsig func) args kw p"
    by auto
  note u = unsupplied_arguments[OF wf b p ns]
  let ?ba = "if flag then apply_defaults ba0 else ba0"
  obtain r b' w' tr where rc: "run_callbacks ArgBoundArguments (c # cbs) 0 ?ba w = (r, b', w', tr)"
    by (metis prod_cases4)
  from first_callback_sees[OF rc] obtain sub rest where
    tr: "tr = Call (CallbackCalled 0 (ArgBoundArguments ?ba)) sub # rest"
    by blast
  have "\<exists>rest'. snd (snd (signature_decorator_factory (c # cbs) flag func args kw w))
           = Call (CallbackCalled 0 (ArgBoundArguments ?ba)) sub # rest'"
    using rc tr
    by (auto simp: signature_decorator_factory_def b Let_def split: prod.splits option.splits
        simp del: run_callbacks.simps)
  moreover have "arg_boundarguments (ArgBoundArguments ?ba) = Some ?ba"
    by simp
  moreover have "if flag then (\<forall>d. pdefault p = Some d \<longrightarrow> map_of (arguments ?ba) (pname p) = Some d)
          else map_of (arguments ?ba) (pname p) = None"
    using u by auto
  ultimately show "\<exists>a ba sub rest.
         snd (snd (signature_decorator_factory (c # cbs) flag func args kw w))
           = Call (CallbackCalled 0 a) sub # rest \<and>
         arg_boundarguments a = Some ba \<and>
         (if flag then (\<forall>d. pdefault p = Some d \<longrightarrow> map_of (arguments ba) (pname p) = Some d)
          else map_of (arguments ba) (pname p) = None)"
    by blast
next
  assume a: "wf_signature (fsig func) \<and> sd_signature self = Some (fsig func) \<and> sd_callbacks self = c # cbs \<and>
    bind (fsig func) args kw = Inr ba0 \<and> p \<in> set (fsig func) \<and>
    \<not> supplied (fsig func) args kw p"
  then have wf: "wf_signature (fsig func)" and s: "sd_signature self = Some (fsig func)"
    and cb: "sd_callbacks self = c # cbs" and b: "bind (fsig func) args kw = Inr ba0"
    and p: "p \<in> set (fsig func)" and ns: "\<not> supplied (fsig func) args kw p"
    by auto
  note u = unsupplied_arguments[OF wf b p ns]
  let ?ba = "if sd_apply_defaults self then apply_defaults ba0 else ba0"
  obtain r b' w' tr where rc: "run_callbacks (callback_arg self) (c # cbs) 0 ?ba w = (r, b', w', tr)"
    by (metis prod_cases4)
  from first_callback_sees[OF rc] obtain sub rest where
    tr: "tr = Call (CallbackCalled 0 (callback_arg self ?ba)) sub # rest"
    by blast
  have "\<exists>rest'. snd (snd (fst (SignatureDecorator_inner func self args kw w)))
           = Call (CallbackCalled 0 (callback_arg self ?ba)) sub # rest'"
    using rc tr
    by (auto simp: SignatureDecorator_inner_def s cb b Let_def split: prod.splits option.splits
        simp del: run_callbacks.simps)
  moreover have "arg_boundarguments (callback_arg self ?ba) = Some ?ba"
    by (simp add: callback_arg_def view_def)
  moreover have "if sd_apply_defaults self
          then (\<forall>d. pdefault p = Some d \<longrightarrow> map_of (arguments ?ba) (pname p) = Some d)
          else map_of (arguments ?ba) (pname p) = None"
    using u by auto
  ultimately show "\<exists>a ba sub rest.
         snd (snd (fst (SignatureDecorator_inner func self args kw w)))
           = Call (CallbackCalled 0 a) sub # rest \<and>
         arg_boundarguments a = Some ba \<and>
         (if sd_apply_defaults self
          then (\<forall>d. pdefault p = Some d \<longrightarrow> map_of (arguments ba) (pname p) = Some d)
          else map_of (arguments ba) (pname p) = None)"
    by blast
qed

theorem defaults_before_first_callback_witness:
  "wf_signature (fsig f_ab) \<and> bind (fsig f_ab) [VInt 1] [] = Inr f_ab_bound \<and>
   param_b \<in> set (fsig f_ab) \<and> \<not> supplied (fsig f_ab) [VInt 1] [] param_b \<and>
   sd_signature f_ab_sig = Some (fsig f_ab) \<and> sd_callbacks f_ab_sig = set_b # [see_b] \<and>
   \<not> sd_apply_defaults f_ab_sig \<and>
   (\<exists>a ba sub rest.
      snd (snd (signature_decorator_factory (see_b # []) True f_ab [VInt 1] [] 0))
        = Call (CallbackCalled 0 a) sub # rest \<and>
      arg_boundarguments a = Some ba \<and> map_of (arguments ba) ''b'' = Some (VInt 2)) \<and>
   (\<exists>a ba sub rest.
      snd (snd (fst (SignatureDecorator_inner f_ab f_ab_sig [VInt 1] [] 0)))
        = Call (CallbackCalled 0 a) sub # rest \<and>
      arg_boundarguments a = Some ba \<and> map_of (arguments ba) ''b'' = None)"
proof -
  have b: "bind (fsig f_ab) [VInt 1] [] = Inr f_ab_bound"
    by (simp add: bind_def f_ab_def f_ab_bound_def has_key_def)
  have p: "param_b \<in> set (fsig f_ab)"
    by (simp add: param_b_def f_ab_def)
  have n: "\<not> supplied (fsig f_ab) [VInt 1] [] param_b"
    by (simp add: supplied_def param_b_def f_ab_def has_key_def)
  have s: "sd_signature f_ab_sig = Some (fsig f_ab)" "sd_callbacks f_ab_sig = set_b # [see_b]"
    "\<not> sd_apply_defaults f_ab_sig"
    by (simp_all add: f_ab_sig_def SignatureDecorator_init_def)
  have q: "pname param_b = ''b''" "pdefault param_b = Some (VInt 2)"
    by (simp_all add: param_b_def)
  note T = defaults_before_first_callback[where func=f_ab and args="[VInt 1]" and kw="[]"
      and ?ba0.0=f_ab_bound and p=param_b and c=see_b and cbs="[]" and flag=True and w=0]
  note U = defaults_before_first_callback[where func=f_ab and args="[VInt 1]" and kw="[]"
      and ?ba0.0=f_ab_bound and p=param_b and c=set_b and cbs="[see_b]" and flag=True and w=0
      and self=f_ab_sig]
  have 1: "\<exists>a ba sub rest.
      snd (snd (signature_decorator_factory (see_b # []) True f_ab [VInt 1] [] 0))
        = Call (CallbackCalled 0 a) sub # rest \<and>
      arg_boundarguments a = Some ba \<and> map_of (arguments ba) ''b'' = Some (VInt 2)"
    using T[THEN conjunct1] wf_f_ab b p n q by simp
  have 2: "\<exists>a ba sub rest.
      snd (snd (fst (SignatureDecorator_inner f_ab f_ab_sig [VInt 1] [] 0)))
        = Call (CallbackCalled 0 a) sub # rest \<and>
      arg_boundarguments a = Some ba \<and> map_of (arguments ba) ''b'' = None"
    using U[THEN conjunct2] wf_f_ab b p n q s by simp
  from wf_f_ab b p n s 1 2 show ?thesis by blast
qed

subsection \<open>Calls that do not fit the signature\<close>




subsection \<open>Decoration without callbacks\<close>



end
